theory Spec2Isabelle
  imports Complex_Main "HOL-Library.AList" "HOL-Library.Log_Nat"
begin

section \<open>Decimal strings and the decimal type of big.js\<close>

text \<open>
  Prices and sizes travel as decimal strings. The bots read them in two ways: through
  \<^verbatim>\<open>new Big(s)\<close>, an exact decimal, and through \<^verbatim>\<open>parseFloat(s)\<close>, an IEEE double.
  Both readers are library code; they are modelled here from their documented behaviour so
  that the bots' own functions can be evaluated on concrete order books.
\<close>

definition is_digit :: "char \<Rightarrow> bool" where
  "is_digit c \<longleftrightarrow> c \<in> set ''0123456789''"

definition digit_val :: "char \<Rightarrow> nat" where
  "digit_val c = of_char c - 48"

definition digits_val :: "string \<Rightarrow> nat" where
  "digits_val ds = foldl (\<lambda>n c. 10 * n + digit_val c) 0 ds"

text \<open>
  The mantissa of a decimal literal: \<^verbatim>\<open>\d+(\.\d*)?|\.\d+\<close>. The result is the integer
  digits, the fraction digits and the unread rest.
\<close>

definition scan_mantissa :: "string \<Rightarrow> (string \<times> string \<times> string) option" where
  "scan_mantissa s =
     (let ip = takeWhile is_digit s; r = dropWhile is_digit s
      in case r of
           c # r' \<Rightarrow>
             if c = CHR ''.'' then
               (let fp = takeWhile is_digit r'; r'' = dropWhile is_digit r'
                in if ip = [] \<and> fp = [] then None else Some (ip, fp, r''))
             else if ip = [] then None else Some (ip, [], r)
         | [] \<Rightarrow> if ip = [] then None else Some (ip, [], r))"

text \<open>
  An exponent part \<^verbatim>\<open>e[+-]?\d+\<close> (case-insensitive) at the head of the string: its value
  and the unread rest, or \<open>None\<close> when the head is not an exponent part.
\<close>

definition scan_exponent :: "string \<Rightarrow> (int \<times> string) option" where
  "scan_exponent s =
     (case s of
        [] \<Rightarrow> None
      | c # r \<Rightarrow>
          if c = CHR ''e'' \<or> c = CHR ''E'' then
            (case r of
               [] \<Rightarrow> None
             | d # r' \<Rightarrow>
                 if d = CHR ''+'' \<or> d = CHR ''-'' then
                   (if takeWhile is_digit r' = [] then None
                    else Some ((if d = CHR ''-'' then - 1 else 1) *
                                 int (digits_val (takeWhile is_digit r')),
                               dropWhile is_digit r'))
                 else if takeWhile is_digit r = [] then None
                 else Some (int (digits_val (takeWhile is_digit r)), dropWhile is_digit r))
          else None)"

text \<open>
  A value of big.js: the decimal \<open>coef * 10 ^ expo\<close>. big.js keeps the coefficient without
  trailing zeros, so a value has one representation; \<open>norm_big\<close> restores that form.
\<close>

datatype big = Big (coef: int) (expo: int)

function strip10 :: "int \<Rightarrow> int \<Rightarrow> big" where
  "strip10 m e = (if m \<noteq> 0 \<and> m mod 10 = 0 then strip10 (m div 10) (e + 1) else Big m e)"
  by pat_completeness auto
termination
  by (relation "measure (\<lambda>(m, e). nat \<bar>m\<bar>)") auto

declare strip10.simps [simp del]

definition norm_big :: "int \<Rightarrow> int \<Rightarrow> big" where
  "norm_big m e = (if m = 0 then Big 0 0 else strip10 m e)"

definition big_val :: "big \<Rightarrow> rat" where
  "big_val b = of_int (coef b) * 10 powi expo b"

text \<open>
  \<^verbatim>\<open>new Big(s)\<close> for a string: the whole string must match
  \<^verbatim>\<open>^-?(\d+(\.\d*)?|\.\d+)(e[+-]?\d+)?$\<close> (case-insensitive), otherwise the constructor
  throws; \<open>None\<close> is that throw.
\<close>

definition parse_unsigned :: "string \<Rightarrow> big option" where
  "parse_unsigned s =
     (case scan_mantissa s of
        None \<Rightarrow> None
      | Some (ip, fp, r) \<Rightarrow>
          if r = [] then Some (norm_big (int (digits_val (ip @ fp))) (- int (length fp)))
          else (case scan_exponent r of
                  None \<Rightarrow> None
                | Some (ex, r') \<Rightarrow>
                    if r' = [] then
                      Some (norm_big (int (digits_val (ip @ fp))) (ex - int (length fp)))
                    else None))"

definition new_Big :: "string \<Rightarrow> big option" where
  "new_Big s =
     (case s of
        [] \<Rightarrow> None
      | c # r \<Rightarrow>
          if c = CHR ''-'' then
            (case parse_unsigned r of
               None \<Rightarrow> None
             | Some b \<Rightarrow> Some (Big (- coef b) (expo b)))
          else parse_unsigned s)"

text \<open>Comparison, sum, difference and minimum of big.js are exact.\<close>

definition big_lt :: "big \<Rightarrow> big \<Rightarrow> bool" where
  "big_lt a b \<longleftrightarrow> big_val a < big_val b"

definition big_gt :: "big \<Rightarrow> big \<Rightarrow> bool" where
  "big_gt a b \<longleftrightarrow> big_val a > big_val b"

definition big_plus :: "big \<Rightarrow> big \<Rightarrow> big" where
  "big_plus a b =
     (let e = min (expo a) (expo b)
      in norm_big (coef a * 10 ^ nat (expo a - e) + coef b * 10 ^ nat (expo b - e)) e)"

definition big_minus :: "big \<Rightarrow> big \<Rightarrow> big" where
  "big_minus a b = big_plus a (Big (- coef b) (expo b))"

text \<open>
  \<^verbatim>\<open>x.div(y)\<close> throws on a zero divisor (\<open>None\<close>) and otherwise rounds the quotient to
  \<^verbatim>\<open>Big.DP = 20\<close> decimal places, half away from zero (\<^verbatim>\<open>Big.RM = 1\<close>), the defaults
  of the library, which the bots never change.
\<close>

definition round_half_up :: "int \<Rightarrow> int \<Rightarrow> int" where
  "round_half_up n d = sgn n * sgn d * ((2 * \<bar>n\<bar> + \<bar>d\<bar>) div (2 * \<bar>d\<bar>))"

definition big_div :: "big \<Rightarrow> big \<Rightarrow> big option" where
  "big_div a b =
     (if coef b = 0 then None
      else
        (let t = expo a - expo b + 20
         in Some (norm_big
                    (if 0 \<le> t then round_half_up (coef a * 10 ^ nat t) (coef b)
                     else round_half_up (coef a) (coef b * 10 ^ nat (- t)))
                    (- 20))))"

text \<open>
  \<^verbatim>\<open>x.toString()\<close>: positional notation while the decimal exponent of the first digit
  lies strictly between \<^verbatim>\<open>Big.NE = -7\<close> and \<^verbatim>\<open>Big.PE = 21\<close>, exponential notation
  otherwise.
\<close>

fun digits_of :: "nat \<Rightarrow> string" where
  "digits_of n =
     (if n < 10 then [''0123456789'' ! n]
      else digits_of (n div 10) @ [''0123456789'' ! (n mod 10)])"

definition int_toString :: "int \<Rightarrow> string" where
  "int_toString i = (if i < 0 then CHR ''-'' # digits_of (nat (- i)) else digits_of (nat i))"

definition stringify :: "string \<Rightarrow> int \<Rightarrow> string" where
  "stringify s e =
     (let n = int (length s)
      in if e \<le> - 7 \<or> 21 \<le> e then
           take 1 s @ (if 1 < n then CHR ''.'' # drop 1 s else []) @
             (if e < 0 then ''e'' else ''e+'') @ int_toString e
         else if e < 0 then ''0.'' @ replicate (nat (- e - 1)) CHR ''0'' @ s
         else if 0 < e then
           (if n < e + 1 then s @ replicate (nat (e + 1 - n)) CHR ''0''
            else if e + 1 < n then take (nat (e + 1)) s @ CHR ''.'' # drop (nat (e + 1)) s
            else s)
         else if 1 < n then take 1 s @ CHR ''.'' # drop 1 s
         else s)"

definition big_toString :: "big \<Rightarrow> string" where
  "big_toString b =
     (let s = digits_of (nat \<bar>coef b\<bar>);
          e = expo b + int (length s) - 1
      in if coef b < 0 then CHR ''-'' # stringify s e else stringify s e)"

section \<open>IEEE doubles\<close>

text \<open>
  A JavaScript number: a finite double, carried as its exact rational value, an infinity or
  NaN. Negative zero is not kept apart from zero; no function below divides by a computed
  zero or prints the sign of a zero.
\<close>

datatype number = Finite rat | PosInf | NegInf | NaN

text \<open>
  Rounding to the nearest double, ties to the even significand. For \<open>x > 0\<close> with
  \<open>2 ^ k \<le> x < 2 ^ (k + 1)\<close> the spacing of doubles around \<open>x\<close> is \<open>2 ^ (k - 52)\<close>, and
  never less than \<open>2 ^ - 1074\<close>, the spacing of the subnormals.
\<close>

definition floor_log2 :: "rat \<Rightarrow> int" where
  "floor_log2 x =
     (case quotient_of x of
        (p, q) \<Rightarrow> (let d = bitlen p - bitlen q in if 2 powi d \<le> x then d else d - 1))"

definition round_even :: "rat \<Rightarrow> int" where
  "round_even x =
     (let f = \<lfloor>x\<rfloor>
      in if x - of_int f < 1 / 2 then f
         else if 1 / 2 < x - of_int f then f + 1
         else if even f then f else f + 1)"

definition dbl_expo :: "rat \<Rightarrow> int" where
  "dbl_expo x = max (floor_log2 x - 52) (- 1074)"

definition round_pos :: "rat \<Rightarrow> rat" where
  "round_pos x = of_int (round_even (x / 2 powi dbl_expo x)) * 2 powi dbl_expo x"

definition to_double :: "rat \<Rightarrow> number" where
  "to_double x =
     (if x = 0 then Finite 0
      else if 0 < x then (if 2 ^ 1024 \<le> round_pos x then PosInf else Finite (round_pos x))
      else (if 2 ^ 1024 \<le> round_pos (- x) then NegInf else Finite (- round_pos (- x))))"

text \<open>
  JavaScript's \<^verbatim>\<open><\<close> and \<^verbatim>\<open>>=\<close> on numbers: every comparison with NaN is false.
\<close>

fun num_lt :: "number \<Rightarrow> number \<Rightarrow> bool" where
  "num_lt NaN _ = False"
| "num_lt _ NaN = False"
| "num_lt (Finite a) (Finite b) = (a < b)"
| "num_lt (Finite a) PosInf = True"
| "num_lt (Finite a) NegInf = False"
| "num_lt PosInf _ = False"
| "num_lt NegInf NegInf = False"
| "num_lt NegInf _ = True"

definition num_ge :: "number \<Rightarrow> number \<Rightarrow> bool" where
  "num_ge a b \<longleftrightarrow> a \<noteq> NaN \<and> b \<noteq> NaN \<and> \<not> num_lt a b"

text \<open>Sum, difference and quotient of doubles: the exact result, rounded.\<close>

fun num_add :: "number \<Rightarrow> number \<Rightarrow> number" where
  "num_add NaN _ = NaN"
| "num_add _ NaN = NaN"
| "num_add (Finite a) (Finite b) = to_double (a + b)"
| "num_add PosInf NegInf = NaN"
| "num_add NegInf PosInf = NaN"
| "num_add PosInf _ = PosInf"
| "num_add NegInf _ = NegInf"
| "num_add (Finite a) b = b"

fun num_neg :: "number \<Rightarrow> number" where
  "num_neg (Finite a) = Finite (- a)"
| "num_neg PosInf = NegInf"
| "num_neg NegInf = PosInf"
| "num_neg NaN = NaN"

definition num_minus :: "number \<Rightarrow> number \<Rightarrow> number" where
  "num_minus a b = num_add a (num_neg b)"

text \<open>
  Division, for a finite non-zero divisor (the only division of doubles in the bots is by
  the literal 100); any other divisor gives NaN here.
\<close>

fun num_div :: "number \<Rightarrow> number \<Rightarrow> number" where
  "num_div (Finite a) (Finite b) = (if b = 0 then NaN else to_double (a / b))"
| "num_div PosInf (Finite b) = (if 0 < b then PosInf else if b < 0 then NegInf else NaN)"
| "num_div NegInf (Finite b) = (if 0 < b then NegInf else if b < 0 then PosInf else NaN)"
| "num_div _ _ = NaN"

fun Math_min :: "number \<Rightarrow> number \<Rightarrow> number" where
  "Math_min NaN _ = NaN"
| "Math_min _ NaN = NaN"
| "Math_min a b = (if num_lt b a then b else a)"

text \<open>
  \<^verbatim>\<open>parseFloat(s)\<close>: leading white space is skipped, then the longest prefix that is a
  signed decimal literal or \<^verbatim>\<open>Infinity\<close> is read and rounded to a double; NaN when there
  is no such prefix. Strings are ASCII here, so only the ASCII white space is skipped.
\<close>

definition is_space :: "char \<Rightarrow> bool" where
  "is_space c \<longleftrightarrow> of_char c \<in> {9, 10, 11, 12, 13, 32 :: nat}"

definition parseFloat :: "string \<Rightarrow> number" where
  "parseFloat s =
     (let t = dropWhile is_space s;
          neg = (take 1 t = ''-'');
          u = (if take 1 t = ''-'' \<or> take 1 t = ''+'' then drop 1 t else t)
      in if take 8 u = ''Infinity'' then (if neg then NegInf else PosInf)
         else
           (case scan_mantissa u of
              None \<Rightarrow> NaN
            | Some (ip, fp, r) \<Rightarrow>
                (let ex = (case scan_exponent r of None \<Rightarrow> 0 | Some (e, r') \<Rightarrow> e);
                     v = of_nat (digits_val (ip @ fp)) * 10 powi (ex - int (length fp))
                 in to_double (if neg then - v else v))))"

text \<open>\<^verbatim>\<open>x.toNumber()\<close> of big.js is \<^verbatim>\<open>Number(x.toString())\<close>: the nearest double.\<close>

definition toNumber :: "big \<Rightarrow> number" where
  "toNumber b = to_double (big_val b)"

text \<open>
  \<^verbatim>\<open>Array.prototype.sort(comparefn)\<close> is stable, and it reads only the sign of the
  comparator's result, with NaN taken as zero. For a comparator that is a consistent
  ordering the result is the one stable insertion gives; for an inconsistent one (which
  needs a price that parses to NaN) the language leaves the order to the engine.
\<close>

fun insort_by :: "('a \<Rightarrow> 'a \<Rightarrow> number) \<Rightarrow> 'a \<Rightarrow> 'a list \<Rightarrow> 'a list" where
  "insort_by cmp x [] = [x]"
| "insort_by cmp x (y # ys) =
     (if num_lt (Finite 0) (cmp x y) then y # insort_by cmp x ys else x # y # ys)"

definition sort_by :: "('a \<Rightarrow> 'a \<Rightarrow> number) \<Rightarrow> 'a list \<Rightarrow> 'a list" where
  "sort_by cmp xs = foldr (insort_by cmp) xs []"

section \<open>Data model\<close>

text \<open>
  The interfaces of \<^verbatim>\<open>types/polymarket.ts\<close>. Field names carry a prefix per record.
  Timestamps are millisecond counts, integers far below \<open>2 ^ 53\<close>, where double arithmetic
  is exact; they are integers here.
\<close>

datatype side = Buy | Sell

record Order =
  o_id :: string
  o_market :: string
  o_outcome :: string
  o_side :: side
  o_price :: string
  o_size :: string
  o_timestamp :: int
  o_maker :: "string option"

record OrderBook =
  ob_market :: string
  bids :: "Order list"
  asks :: "Order list"

record Trade =
  t_id :: string
  t_market :: string
  t_outcome :: string
  t_side :: side
  t_price :: string
  t_size :: string
  t_timestamp :: int
  t_taker :: string
  t_maker :: string

record Position =
  p_market :: string
  p_outcome :: string
  p_side :: string
  p_size :: string
  averagePrice :: string
  unrealizedPnl :: string
  realizedPnl :: string

record CreateOrderParams =
  c_market :: string
  c_outcome :: string
  c_side :: side
  c_price :: string
  c_size :: string

datatype order_status = Pending | Filled | Cancelled | Rejected

record OrderResponse =
  r_id :: string
  r_status :: order_status

record ArbitrageOpportunity =
  a_market :: string
  a_outcome :: string
  buyPrice :: string
  sellPrice :: string
  profitMargin :: number
  buyOrder :: Order
  sellOrder :: Order

record TraderActivity =
  address :: string
  recentTrades :: "Trade list"
  winRate :: number
  totalTrades :: nat
  lastTradeTime :: int

text \<open>
  The configuration. The numbers that the bots hand to big.js (order size bounds,
  slippage, position size caps) are held as the text \<^verbatim>\<open>String(n)\<close> that the \<^verbatim>\<open>Big\<close>
  constructor reads from a number, such as \<open>''0.01''\<close>, or \<open>''NaN''\<close> for a variable that did
  not parse; the numbers compared as doubles are held as doubles.
\<close>

record Config =
  minOrderSize :: string
  maxOrderSize :: string
  defaultSlippage :: string
  maxPositions :: number
  minConfidence :: number
  copy_maxPositionSize :: string
  minProfitMargin :: number
  arb_maxPositionSize :: string

text \<open>
  What can be thrown: by big.js on text that is not a number and on a zero divisor, by
  the call of a property that is not a function (a \<^verbatim>\<open>TypeError\<close>), by the order
  validation, and by the HTTP client.
\<close>

datatype error =
  InvalidNumber | DivisionByZero | NotAFunction | BelowMinimum | AboveMaximum | InvalidPrice
  | ApiFailure string

text \<open>
  \<^verbatim>\<open>Big.min(a, b)\<close>. The constructor of big.js carries the settings \<^verbatim>\<open>DP\<close>, \<^verbatim>\<open>RM\<close>,
  \<^verbatim>\<open>NE\<close>, \<^verbatim>\<open>PE\<close>, \<^verbatim>\<open>strict\<close> and the names of the rounding modes, and no function
  \<^verbatim>\<open>min\<close>: the property is undefined, and calling it throws a \<^verbatim>\<open>TypeError\<close>, whatever
  the arguments are.
\<close>

definition Big_min :: "big \<Rightarrow> big \<Rightarrow> error + big" where
  "Big_min a b = Inl NotAFunction"

text \<open>
  The market API is outside the program. Each request is recorded in the bot's list of
  calls, and the answer of the API may depend on all requests made before it.
\<close>

datatype api_call =
  GetPositions string | CreateOrder CreateOrderParams | GetOrderBook string string

record Api =
  getPositions :: "api_call list \<Rightarrow> string \<Rightarrow> error + Position list"
  createOrder :: "api_call list \<Rightarrow> CreateOrderParams \<Rightarrow> error + OrderResponse"
  getOrderBook :: "api_call list \<Rightarrow> string \<Rightarrow> string \<Rightarrow> error + OrderBook"

text \<open>
  The fields of the bots. A JavaScript \<^verbatim>\<open>Map\<close> keeps its entries in insertion order, one
  per key: an association list maintained by \<open>AList.update\<close> and \<open>AList.delete\<close>.
\<close>

record Bot =
  accountAddress :: string
  positions :: "(string \<times> Position) list"
  activeOpportunities :: "(string \<times> ArbitrageOpportunity) list"
  traderActivities :: "(string \<times> TraderActivity) list"
  calls :: "api_call list"

section \<open>The shared base: position ledger and order gate\<close>

text \<open>The key of both maps: \<^verbatim>\<open>`${market}-${outcome}`\<close>.\<close>

definition map_key :: "string \<Rightarrow> string \<Rightarrow> string" where
  "map_key market outcome = market @ ''-'' @ outcome"

text \<open>
  \<^verbatim>\<open>refreshPositions\<close>: the fetch comes first; only when it has answered is the map
  cleared and filled again, a later position replacing an earlier one of the same key.
  A failed fetch is thrown on to the caller.
\<close>

definition refreshPositions :: "Api \<Rightarrow> Bot \<Rightarrow> (error + unit) \<times> Bot" where
  "refreshPositions api st =
     (let st1 = st\<lparr>calls := calls st @ [GetPositions (accountAddress st)]\<rparr>
      in case getPositions api (calls st) (accountAddress st) of
           Inl err \<Rightarrow> (Inl err, st1)
         | Inr ps \<Rightarrow>
             (Inr (),
              st1\<lparr>positions :=
                    foldl (\<lambda>m pos. AList.update (map_key (p_market pos) (p_outcome pos)) pos m)
                      [] ps\<rparr>))"

definition getPosition :: "Bot \<Rightarrow> string \<Rightarrow> string \<Rightarrow> Position option" where
  "getPosition st market outcome = map_of (positions st) (map_key market outcome)"

text \<open>
  \<^verbatim>\<open>placeOrder\<close>: the size is checked against both bounds, then the price against 0 and
  1; each failed check throws, and so does text that big.js does not accept. Only then is
  the order sent, and the positions refreshed.
\<close>

definition placeOrder ::
  "Api \<Rightarrow> Config \<Rightarrow> Bot \<Rightarrow> CreateOrderParams \<Rightarrow> (error + OrderResponse) \<times> Bot" where
  "placeOrder api cfg st params =
     (case new_Big (c_size params) of
        None \<Rightarrow> (Inl InvalidNumber, st)
      | Some size' \<Rightarrow>
     (case new_Big (minOrderSize cfg) of
        None \<Rightarrow> (Inl InvalidNumber, st)
      | Some lo \<Rightarrow>
     if big_lt size' lo then (Inl BelowMinimum, st)
     else
     (case new_Big (maxOrderSize cfg) of
        None \<Rightarrow> (Inl InvalidNumber, st)
      | Some hi \<Rightarrow>
     if big_gt size' hi then (Inl AboveMaximum, st)
     else
     (case new_Big (c_price params) of
        None \<Rightarrow> (Inl InvalidNumber, st)
      | Some price \<Rightarrow>
     if big_lt price (Big 0 0) \<or> big_gt price (Big 1 0) then (Inl InvalidPrice, st)
     else
       (let st1 = st\<lparr>calls := calls st @ [CreateOrder params]\<rparr>
        in case createOrder api (calls st) params of
             Inl err \<Rightarrow> (Inl err, st1)
           | Inr response \<Rightarrow>
               (case refreshPositions api st1 of
                  (Inl err, st2) \<Rightarrow> (Inl err, st2)
                | (Inr u, st2) \<Rightarrow> (Inr response, st2)))))))"

definition buy ::
  "Api \<Rightarrow> Config \<Rightarrow> Bot \<Rightarrow> string \<Rightarrow> string \<Rightarrow> string \<Rightarrow> string \<Rightarrow>
     (error + OrderResponse) \<times> Bot" where
  "buy api cfg st market outcome price size' =
     placeOrder api cfg st
       \<lparr>c_market = market, c_outcome = outcome, c_side = Buy, c_price = price, c_size = size'\<rparr>"

definition sell ::
  "Api \<Rightarrow> Config \<Rightarrow> Bot \<Rightarrow> string \<Rightarrow> string \<Rightarrow> string \<Rightarrow> string \<Rightarrow>
     (error + OrderResponse) \<times> Bot" where
  "sell api cfg st market outcome price size' =
     placeOrder api cfg st
       \<lparr>c_market = market, c_outcome = outcome, c_side = Sell, c_price = price, c_size = size'\<rparr>"

text \<open>The comparators of the two sorts: bids by falling, asks by rising \<^verbatim>\<open>parseFloat\<close>.\<close>

definition bid_cmp :: "Order \<Rightarrow> Order \<Rightarrow> number" where
  "bid_cmp a b = num_minus (parseFloat (o_price b)) (parseFloat (o_price a))"

definition ask_cmp :: "Order \<Rightarrow> Order \<Rightarrow> number" where
  "ask_cmp a b = num_minus (parseFloat (o_price a)) (parseFloat (o_price b))"

text \<open>
  \<^verbatim>\<open>getBestPrices\<close>: the price text of the first order of each sorted side; null when the
  book could not be fetched, when a side is empty, or when a best price is the empty
  string (which \<^verbatim>\<open>!bestBid\<close> takes as absent).
\<close>

definition getBestPrices ::
  "Api \<Rightarrow> Bot \<Rightarrow> string \<Rightarrow> string \<Rightarrow> (string \<times> string) option \<times> Bot" where
  "getBestPrices api st market outcome =
     (let st1 = st\<lparr>calls := calls st @ [GetOrderBook market outcome]\<rparr>
      in case getOrderBook api (calls st) market outcome of
           Inl err \<Rightarrow> (None, st1)
         | Inr orderBook \<Rightarrow>
             (let bestBid = (case sort_by bid_cmp (bids orderBook) of
                               [] \<Rightarrow> None | b # bs \<Rightarrow> Some (o_price b));
                  bestAsk = (case sort_by ask_cmp (asks orderBook) of
                               [] \<Rightarrow> None | a # as \<Rightarrow> Some (o_price a))
              in case (bestBid, bestAsk) of
                   (Some bid, Some ask) \<Rightarrow>
                     if bid = [] \<or> ask = [] then (None, st1) else (Some (bid, ask), st1)
                 | _ \<Rightarrow> (None, st1)))"

definition canOpenPosition :: "Config \<Rightarrow> Bot \<Rightarrow> bool" where
  "canOpenPosition cfg st \<longleftrightarrow>
     num_lt (Finite (of_nat (length (positions st)))) (maxPositions cfg)"

section \<open>The copy-trading bot\<close>

text \<open>
  \<^verbatim>\<open>calculateWinRate\<close>, with the clock reading \<^verbatim>\<open>Date.now()\<close> as the argument \<open>now\<close>.
  The literals \<^verbatim>\<open>0.5\<close> and \<^verbatim>\<open>100\<close> are doubles; \<^verbatim>\<open>0.95\<close> denotes the nearest double.
\<close>

definition calculateWinRate :: "int \<Rightarrow> Trade list \<Rightarrow> number" where
  "calculateWinRate now trades =
     (if length trades = 0 then Finite 0
      else
        (let recent = filter (\<lambda>t. now - t_timestamp t < 7 * 24 * 60 * 60 * 1000) trades
         in if length recent = 0 then Finite (1 / 2)
            else Math_min (to_double (95 / 100))
                   (num_add (Finite (1 / 2))
                      (num_div (Finite (of_nat (length recent))) (Finite 100)))))"

text \<open>
  \<^verbatim>\<open>processTraderTrade\<close>. Everything thrown inside, by big.js, by the call of
  \<^verbatim>\<open>Big.min\<close> or by \<^verbatim>\<open>placeOrder\<close>, is caught and logged, so the function only changes
  the state. The size of the mirrored order is computed before its price.
\<close>

definition processTraderTrade :: "Api \<Rightarrow> Config \<Rightarrow> Bot \<Rightarrow> string \<Rightarrow> Trade \<Rightarrow> Bot" where
  "processTraderTrade api cfg st traderAddress trade =
     (case map_of (traderActivities st) traderAddress of
        None \<Rightarrow> st
      | Some activity \<Rightarrow>
          if num_lt (winRate activity) (minConfidence cfg) then st
          else
            (let isTraderBuying = (t_taker trade = traderAddress \<and> t_side trade = Buy);
                 isTraderSelling = (t_taker trade = traderAddress \<and> t_side trade = Sell)
             in if \<not> isTraderBuying \<and> \<not> isTraderSelling then st
                else if \<not> canOpenPosition cfg st then st
                else
                  (let side = (if isTraderBuying then Buy else Sell)
                   in case new_Big (t_size trade) of
                        None \<Rightarrow> st
                      | Some traderSize \<Rightarrow>
                     (case new_Big (copy_maxPositionSize cfg) of
                        None \<Rightarrow> st
                      | Some maxSize \<Rightarrow>
                     (case Big_min traderSize maxSize of
                        Inl err \<Rightarrow> st
                      | Inr ourSize \<Rightarrow>
                     (case new_Big (t_price trade) of
                        None \<Rightarrow> st
                      | Some price \<Rightarrow>
                     (case new_Big (defaultSlippage cfg) of
                        None \<Rightarrow> st
                      | Some slippage \<Rightarrow>
                          snd (placeOrder api cfg st
                                 \<lparr>c_market = t_market trade,
                                  c_outcome = t_outcome trade,
                                  c_side = side,
                                  c_price =
                                    (if side = Buy then big_toString (big_plus price slippage)
                                     else big_toString (big_minus price slippage)),
                                  c_size = big_toString ourSize\<rparr>))))))))"

section \<open>The arbitrage bot\<close>

text \<open>
  \<^verbatim>\<open>findArbitrageOpportunity\<close>. Whatever is thrown inside (a failed fetch, text that
  big.js rejects, a division by a zero ask, the call of \<^verbatim>\<open>Big.min\<close>) is caught, and the
  result is null. The trade size is computed, for the log, before the opportunity is
  built and returned.
\<close>

definition findArbitrageOpportunity ::
  "Api \<Rightarrow> Config \<Rightarrow> Bot \<Rightarrow> string \<Rightarrow> string \<Rightarrow> ArbitrageOpportunity option \<times> Bot" where
  "findArbitrageOpportunity api cfg st marketId outcome =
     (let st1 = st\<lparr>calls := calls st @ [GetOrderBook marketId outcome]\<rparr>
      in case getOrderBook api (calls st) marketId outcome of
           Inl err \<Rightarrow> (None, st1)
         | Inr orderBook \<Rightarrow>
             if length (bids orderBook) = 0 \<or> length (asks orderBook) = 0 then (None, st1)
             else
               (case (sort_by bid_cmp (bids orderBook), sort_by ask_cmp (asks orderBook)) of
                  (bestBid # bs, bestAsk # as) \<Rightarrow>
                    (case (new_Big (o_price bestBid), new_Big (o_price bestAsk)) of
                       (Some bidPrice, Some askPrice) \<Rightarrow>
                         if big_gt bidPrice askPrice then
                           (case big_div (big_minus bidPrice askPrice) askPrice of
                              None \<Rightarrow> (None, st1)
                            | Some margin \<Rightarrow>
                                if num_ge (toNumber margin) (minProfitMargin cfg) then
                                  (case new_Big (o_size bestBid) of
                                     None \<Rightarrow> (None, st1)
                                   | Some bidSize \<Rightarrow>
                                  (case new_Big (o_size bestAsk) of
                                     None \<Rightarrow> (None, st1)
                                   | Some askSize \<Rightarrow>
                                  (case Big_min bidSize askSize of
                                     Inl err \<Rightarrow> (None, st1)
                                   | Inr maxSize \<Rightarrow>
                                  (case new_Big (arb_maxPositionSize cfg) of
                                     None \<Rightarrow> (None, st1)
                                   | Some maxPositionSize \<Rightarrow>
                                  (case Big_min maxSize maxPositionSize of
                                     Inl err \<Rightarrow> (None, st1)
                                   | Inr tradeSize \<Rightarrow>
                                       (Some \<lparr>a_market = marketId,
                                              a_outcome = outcome,
                                              buyPrice = big_toString askPrice,
                                              sellPrice = big_toString bidPrice,
                                              profitMargin = toNumber margin,
                                              buyOrder = bestAsk,
                                              sellOrder = bestBid\<rparr>,
                                        st1))))))
                                else (None, st1))
                         else (None, st1)
                     | _ \<Rightarrow> (None, st1))
                | _ \<Rightarrow> (None, st1)))"

text \<open>
  \<^verbatim>\<open>executeArbitrage\<close>: nothing is done for a key that is already active or when no
  position may be opened. Otherwise the trade size is computed, the key is entered, the
  buy leg and then the sell leg are placed, and the key is removed again. Whatever is
  thrown on the way is caught, and the handler removes the key.
\<close>

definition executeArbitrage :: "Api \<Rightarrow> Config \<Rightarrow> Bot \<Rightarrow> ArbitrageOpportunity \<Rightarrow> Bot" where
  "executeArbitrage api cfg st opportunity =
     (let key = map_key (a_market opportunity) (a_outcome opportunity)
      in if map_of (activeOpportunities st) key \<noteq> None then st
         else if \<not> canOpenPosition cfg st then st
         else
           (let caught = st\<lparr>activeOpportunities := AList.delete key (activeOpportunities st)\<rparr>
            in case new_Big (o_size (buyOrder opportunity)) of
                 None \<Rightarrow> caught
               | Some buySize \<Rightarrow>
              (case new_Big (o_size (sellOrder opportunity)) of
                 None \<Rightarrow> caught
               | Some sellSize \<Rightarrow>
              (case Big_min buySize sellSize of
                 Inl err \<Rightarrow> caught
               | Inr maxSize \<Rightarrow>
              (case new_Big (arb_maxPositionSize cfg) of
                 None \<Rightarrow> caught
               | Some maxPositionSize \<Rightarrow>
              (case Big_min maxSize maxPositionSize of
                 Inl err \<Rightarrow> caught
               | Inr size' \<Rightarrow>
                (let tradeSize = big_toString size';
                     st1 = st\<lparr>activeOpportunities :=
                                AList.update key opportunity (activeOpportunities st)\<rparr>
                 in case buy api cfg st1 (a_market opportunity) (a_outcome opportunity)
                           (buyPrice opportunity) tradeSize of
                      (Inl err, st2) \<Rightarrow>
                        st2\<lparr>activeOpportunities := AList.delete key (activeOpportunities st2)\<rparr>
                    | (Inr buyResponse, st2) \<Rightarrow>
                        (case sell api cfg st2 (a_market opportunity) (a_outcome opportunity)
                                (sellPrice opportunity) tradeSize of
                           (r, st3) \<Rightarrow>
                             st3\<lparr>activeOpportunities :=
                                   AList.delete key (activeOpportunities st3)\<rparr>))))))))"

section \<open>The specification's conditions and example data\<close>

text \<open>
  The acceptance condition of the order gate in the specification's words: the size lies
  between the configured bounds and the price between 0 and 1, all four read as exact
  decimals.
\<close>

definition within_bounds :: "Config \<Rightarrow> CreateOrderParams \<Rightarrow> bool" where
  "within_bounds cfg params =
     (case (new_Big (c_size params), new_Big (minOrderSize cfg), new_Big (maxOrderSize cfg),
            new_Big (c_price params)) of
        (Some sz, Some lo, Some hi, Some pr) \<Rightarrow>
          big_val lo \<le> big_val sz \<and> big_val sz \<le> big_val hi \<and>
          0 \<le> big_val pr \<and> big_val pr \<le> 1
      | _ \<Rightarrow> False)"

text \<open>
  The default configuration of \<^verbatim>\<open>config.ts\<close>, with the confidence floor at the double
  0.5 and the copy-trading cap of the specification's scenario.
\<close>

definition example_config :: Config where
  "example_config =
     \<lparr>minOrderSize = ''0.01'', maxOrderSize = ''1000'', defaultSlippage = ''0.01'',
      maxPositions = Finite 10, minConfidence = Finite (1 / 2),
      copy_maxPositionSize = ''20'', minProfitMargin = to_double (2 / 100),
      arb_maxPositionSize = ''500''\<rparr>"

text \<open>An API with fixed answers: the positions, the order book, and every order taken.\<close>

definition example_api :: "(error + Position list) \<Rightarrow> (error + OrderBook) \<Rightarrow> Api" where
  "example_api ps book =
     \<lparr>getPositions = (\<lambda>h a. ps),
      createOrder = (\<lambda>h p. Inr \<lparr>r_id = ''1'', r_status = Pending\<rparr>),
      getOrderBook = (\<lambda>h m oc. book)\<rparr>"

definition example_position :: "string \<Rightarrow> string \<Rightarrow> Position" where
  "example_position m oc =
     \<lparr>p_market = m, p_outcome = oc, p_side = ''yes'', p_size = ''5'', averagePrice = ''0.5'',
      unrealizedPnl = ''0'', realizedPnl = ''0''\<rparr>"

definition example_bot :: Bot where
  "example_bot =
     \<lparr>accountAddress = ''0xA'', positions = [(''m1-yes'', example_position ''m1'' ''yes'')],
      activeOpportunities = [], traderActivities = [], calls = []\<rparr>"

definition example_params :: CreateOrderParams where
  "example_params =
     \<lparr>c_market = ''m1'', c_outcome = ''yes'', c_side = Buy, c_price = ''0.55'', c_size = ''8''\<rparr>"

definition example_trade :: "string \<Rightarrow> string \<Rightarrow> Trade" where
  "example_trade taker maker =
     \<lparr>t_id = ''t1'', t_market = ''m1'', t_outcome = ''yes'', t_side = Buy, t_price = ''0.40'',
      t_size = ''50'', t_timestamp = 1700000000000, t_taker = taker, t_maker = maker\<rparr>"

definition example_order :: "string \<Rightarrow> string \<Rightarrow> Order" where
  "example_order pr sz =
     \<lparr>o_id = ''o1'', o_market = ''m1'', o_outcome = ''yes'', o_side = Buy, o_price = pr,
      o_size = sz, o_timestamp = 1700000000000, o_maker = None\<rparr>"

definition example_opportunity :: ArbitrageOpportunity where
  "example_opportunity =
     \<lparr>a_market = ''m1'', a_outcome = ''yes'', buyPrice = ''0.55'', sellPrice = ''0.6'',
      profitMargin = to_double (1 / 11),
      buyOrder = example_order ''0.55'' ''8'', sellOrder = example_order ''0.60'' ''10''\<rparr>"

text \<open>
  The win-rate heuristic in the specification's words: \<open>n\<close> is the number of trades
  within the last seven days, and the rate is \<^verbatim>\<open>min(0.95, 0.5 + n/100)\<close>, computed on
  doubles as the program computes it.
\<close>

definition recentCount :: "int \<Rightarrow> Trade list \<Rightarrow> nat" where
  "recentCount now trades =
     length (filter (\<lambda>t. now - t_timestamp t < 7 * 24 * 60 * 60 * 1000) trades)"

definition winRateFormula :: "nat \<Rightarrow> number" where
  "winRateFormula n =
     Math_min (to_double (95 / 100))
       (num_add (Finite (1 / 2)) (num_div (Finite (of_nat n)) (Finite 100)))"

text \<open>A rational rounded to 20 decimal places, half away from zero.\<close>

definition round20 :: "rat \<Rightarrow> rat" where
  "round20 x = sgn x * of_int \<lfloor>\<bar>x\<bar> * 10 ^ 20 + 1 / 2\<rfloor> / 10 ^ 20"

definition example_activity :: TraderActivity where
  "example_activity =
     \<lparr>address = ''0xT'', recentTrades = [], winRate = Finite (3 / 4), totalTrades = 0,
      lastTradeTime = 0\<rparr>"

definition following_bot :: Bot where
  "following_bot = example_bot\<lparr>traderActivities := [(''0xT'', example_activity)]\<rparr>"

definition example_book :: "Order list \<Rightarrow> Order list \<Rightarrow> OrderBook" where
  "example_book bs as = \<lparr>ob_market = ''m1'', bids = bs, asks = as\<rparr>"

section \<open>Properties of the rounding to doubles\<close>

lemma bitlen_powi_bounds:
  assumes "0 < p"
  shows "2 powi (bitlen p - 1) \<le> (of_int p :: rat)" "(of_int p :: rat) < 2 powi bitlen p"
proof -
  from assms have b: "2 ^ nat (bitlen p - 1) \<le> p" "p < 2 ^ nat (bitlen p)"
    using bitlen_bounds[of p] by auto
  from assms have ge1: "1 \<le> bitlen p"
    by (auto simp: bitlen_alt_def)
  have "(of_int (2 ^ nat (bitlen p - 1)) :: rat) \<le> of_int p"
    using b(1) of_int_le_iff by blast
  then show "2 powi (bitlen p - 1) \<le> (of_int p :: rat)"
    using ge1 by (simp add: power_int_def)
  have "(of_int p :: rat) < of_int (2 ^ nat (bitlen p))"
    using b(2) of_int_less_iff by blast
  then show "(of_int p :: rat) < 2 powi bitlen p"
    using ge1 by (simp add: power_int_def)
qed

lemma powi2_div: "(2::rat) powi a / 2 powi b = 2 powi (a - b)"
  by (simp add: power_int_diff)

lemma floor_log2_bounds:
  assumes "0 < x"
  shows "2 powi floor_log2 x \<le> x" "x < 2 powi (floor_log2 x + 1)"
proof -
  obtain p q where pq: "quotient_of x = (p, q)" by force
  have q: "0 < q" using pq by (rule quotient_of_denom_pos)
  have x: "x = of_int p / of_int q" using pq by (rule quotient_of_div)
  have p: "0 < p" using assms q x by (simp add: zero_less_divide_iff)
  define d where "d = bitlen p - bitlen q"
  note bp = bitlen_powi_bounds[OF p] and bq = bitlen_powi_bounds[OF q]
  have qpos: "(0::rat) < of_int q" using q by simp
  have "x < 2 powi bitlen p / 2 powi (bitlen q - 1)"
    unfolding x using bp(2) bq(1) qpos p
    by (intro frac_less) (auto simp: less_imp_le)
  also have "\<dots> = 2 powi (d + 1)"
    unfolding powi2_div d_def by (rule arg_cong[where f = "\<lambda>n. 2 powi n"]) simp
  finally have up: "x < 2 powi (d + 1)" .
  have "(2::rat) powi (bitlen p - 1) / 2 powi bitlen q \<le> of_int p / 2 powi bitlen q"
    using bp(1) by (simp add: divide_right_mono)
  also have "\<dots> < x"
    unfolding x using bq(2) qpos p by (intro divide_strict_left_mono) (auto)
  finally have "(2::rat) powi (bitlen p - 1) / 2 powi bitlen q < x" .
  moreover have "2 powi (bitlen p - 1) / 2 powi bitlen q = (2::rat) powi (d - 1)"
    unfolding powi2_div d_def by (rule arg_cong[where f = "\<lambda>n. 2 powi n"]) simp
  ultimately have lo: "2 powi (d - 1) < x" by simp
  have fl: "floor_log2 x = (if 2 powi d \<le> x then d else d - 1)"
    by (simp add: floor_log2_def pq d_def Let_def)
  show "2 powi floor_log2 x \<le> x"
    using lo by (simp add: fl less_imp_le)
  show "x < 2 powi (floor_log2 x + 1)"
    using up by (simp add: fl)
qed

lemma floor_log2_unique:
  assumes "2 powi k \<le> x" "x < 2 powi (k + 1)"
  shows "floor_log2 x = k"
proof -
  have "(0::rat) < 2 powi k" by (rule zero_less_power_int) simp
  then have pos: "0 < x" using assms(1) by (rule less_le_trans)
  note b = floor_log2_bounds[OF pos]
  have "2 powi k < (2::rat) powi (floor_log2 x + 1)" using assms(1) b(2) by simp
  then have 1: "k < floor_log2 x + 1"
    using power_int_increasing[of "floor_log2 x + 1" k "2::rat"] by (cases "k < floor_log2 x + 1") auto
  have "2 powi floor_log2 x < (2::rat) powi (k + 1)" using assms(2) b(1) by simp
  then have 2: "floor_log2 x < k + 1"
    using power_int_increasing[of "k + 1" "floor_log2 x" "2::rat"] by (cases "floor_log2 x < k + 1") auto
  from 1 2 show ?thesis by simp
qed

lemma round_even_floor: "\<lfloor>x\<rfloor> \<le> round_even x" "round_even x \<le> \<lfloor>x\<rfloor> + 1"
  by (simp_all add: round_even_def Let_def)

lemma round_even_ge: "of_int n \<le> x \<Longrightarrow> n \<le> round_even x"
  using round_even_floor(1)[of x] le_floor_iff[of n x] by linarith

lemma round_even_le:
  assumes "x \<le> of_int n"
  shows "round_even x \<le> n"
proof (cases "\<lfloor>x\<rfloor> = n")
  case True
  then have "of_int n \<le> x" by (metis of_int_floor_le)
  with assms have "x = of_int n" by simp
  then show ?thesis by (simp add: round_even_def)
next
  case False
  moreover have "\<lfloor>x\<rfloor> \<le> n" using assms by (simp add: floor_le_iff)
  ultimately have "\<lfloor>x\<rfloor> + 1 \<le> n" by simp
  then show ?thesis using round_even_floor(2)[of x] by linarith
qed

lemma round_even_mono:
  assumes "x \<le> y"
  shows "round_even x \<le> round_even y"
proof (cases "\<lfloor>x\<rfloor> = \<lfloor>y\<rfloor>")
  case True
  then show ?thesis using assms by (auto simp: round_even_def Let_def)
next
  case False
  then have "\<lfloor>x\<rfloor> + 1 \<le> \<lfloor>y\<rfloor>" using floor_mono[OF assms] by simp
  then show ?thesis using round_even_floor(2)[of x] round_even_floor(1)[of y] by linarith
qed

lemma floor_log2_mono:
  assumes "0 < x" "x \<le> y"
  shows "floor_log2 x \<le> floor_log2 y"
proof (rule ccontr)
  assume "\<not> floor_log2 x \<le> floor_log2 y"
  then have "floor_log2 y + 1 \<le> floor_log2 x" by simp
  then have "(2::rat) powi (floor_log2 y + 1) \<le> 2 powi floor_log2 x"
    by (intro power_int_increasing) auto
  moreover have "0 < y" using assms by simp
  ultimately show False
    using floor_log2_bounds(1)[OF assms(1)] floor_log2_bounds(2)[of y] assms(2) by linarith
qed

lemma powi2_pos: "(0::rat) < 2 powi e"
  by (rule zero_less_power_int) simp

lemma round_pos_mono:
  assumes "0 < x" "x \<le> y"
  shows "round_pos x \<le> round_pos y"
proof -
  have ypos: "0 < y" using assms by simp
  have ee: "dbl_expo x \<le> dbl_expo y"
    using floor_log2_mono[OF assms] by (simp add: dbl_expo_def)
  show ?thesis
  proof (cases "dbl_expo x = dbl_expo y")
    case True
    have "x / 2 powi dbl_expo y \<le> y / 2 powi dbl_expo y"
      using assms(2) powi2_pos[of "dbl_expo y"] by (simp add: divide_right_mono)
    then have "round_even (x / 2 powi dbl_expo y) \<le> round_even (y / 2 powi dbl_expo y)"
      by (rule round_even_mono)
    then show ?thesis
      using powi2_pos[of "dbl_expo y"] by (simp add: round_pos_def True)
  next
    case False
    with ee have lt: "dbl_expo x + 1 \<le> dbl_expo y" by simp
    then have ey: "dbl_expo y = floor_log2 y - 52" by (simp add: dbl_expo_def)
    have ex: "floor_log2 x - 52 \<le> dbl_expo x" by (simp add: dbl_expo_def)
    have "x / 2 powi dbl_expo x < 2 powi (floor_log2 x + 1) / 2 powi dbl_expo x"
      using floor_log2_bounds(2)[OF assms(1)] powi2_pos[of "dbl_expo x"]
      by (simp add: divide_strict_right_mono)
    also have "\<dots> = 2 powi (floor_log2 x + 1 - dbl_expo x)" by (rule powi2_div)
    also have "\<dots> \<le> 2 powi 53" using ex by (intro power_int_increasing) auto
    finally have "x / 2 powi dbl_expo x \<le> of_int (2 ^ 53)" by simp
    then have mx: "round_even (x / 2 powi dbl_expo x) \<le> 2 ^ 53" by (rule round_even_le)
    have "(2::rat) powi 52 = 2 powi (floor_log2 y - dbl_expo y)" by (simp add: ey)
    also have "\<dots> = 2 powi floor_log2 y / 2 powi dbl_expo y" by (rule powi2_div[symmetric])
    also have "\<dots> \<le> y / 2 powi dbl_expo y"
      using floor_log2_bounds(1)[OF ypos] powi2_pos[of "dbl_expo y"]
      by (simp add: divide_right_mono)
    finally have "of_int (2 ^ 52) \<le> y / 2 powi dbl_expo y" by simp
    then have my: "2 ^ 52 \<le> round_even (y / 2 powi dbl_expo y)" by (rule round_even_ge)
    have "round_pos x \<le> of_int (2 ^ 53) * 2 powi dbl_expo x"
      unfolding round_pos_def using mx powi2_pos[of "dbl_expo x"]
      by (intro mult_right_mono) (auto simp: less_imp_le)
    also have "\<dots> = 2 powi 53 * 2 powi dbl_expo x" by simp
    also have "\<dots> = 2 powi (53 + dbl_expo x)" by (simp add: power_int_add)
    also have "\<dots> \<le> 2 powi (52 + dbl_expo y)" using lt by (intro power_int_increasing) auto
    also have "\<dots> = 2 powi 52 * 2 powi dbl_expo y" by (simp add: power_int_add)
    also have "\<dots> = of_int (2 ^ 52) * 2 powi dbl_expo y" by simp
    also have "\<dots> \<le> round_pos y"
      unfolding round_pos_def using my powi2_pos[of "dbl_expo y"]
      by (intro mult_right_mono) (auto simp: less_imp_le)
    finally show ?thesis .
  qed
qed

lemma round_pos_nonneg: "0 < x \<Longrightarrow> 0 \<le> round_pos x"
proof -
  assume "0 < x"
  then have "0 \<le> x / 2 powi dbl_expo x" using powi2_pos[of "dbl_expo x"] by simp
  then have "of_int 0 \<le> x / 2 powi dbl_expo x" by simp
  then have "0 \<le> round_even (x / 2 powi dbl_expo x)" by (rule round_even_ge)
  then show ?thesis using powi2_pos[of "dbl_expo x"] by (simp add: round_pos_def)
qed

lemma to_double_nonneg_cases:
  assumes "0 \<le> x"
  shows "to_double x = PosInf \<or> (\<exists>r. to_double x = Finite r \<and> 0 \<le> r)"
  using assms round_pos_nonneg[of x] by (auto simp: to_double_def)

lemma to_double_mono:
  assumes "0 \<le> x" "x \<le> y"
  shows "\<not> num_lt (to_double y) (to_double x)"
proof (cases "x = 0")
  case True
  then show ?thesis using to_double_nonneg_cases[of y] assms by (auto simp: to_double_def)
next
  case False
  with assms have pos: "0 < x" "0 < y" by simp_all
  from round_pos_mono[OF pos(1) assms(2)] show ?thesis
    using pos by (auto simp: to_double_def)
qed

lemma round_even_eq:
  assumes "of_int m - 1 / 2 < x" "x < of_int m + 1 / 2"
  shows "round_even x = m"
proof (cases "of_int m \<le> x")
  case True
  then have "\<lfloor>x\<rfloor> = m" using assms(2) by (intro floor_unique) auto
  then show ?thesis using assms(2) by (simp add: round_even_def)
next
  case False
  then have "\<lfloor>x\<rfloor> = m - 1" using assms(1) by (intro floor_unique) auto
  then show ?thesis using assms(1) by (simp add: round_even_def)
qed

lemma to_double_pos_eval:
  assumes "2 powi k \<le> x" "x < 2 powi (k + 1)"
    and "e = max (k - 52) (- 1074)"
    and "of_int m - 1 / 2 < x / 2 powi e" "x / 2 powi e < of_int m + 1 / 2"
    and "of_int m * 2 powi e < (2::rat) ^ 1024"
  shows "to_double x = Finite (of_int m * 2 powi e)"
proof -
  have "(0::rat) < 2 powi k" by (rule powi2_pos)
  then have pos: "0 < x" using assms(1) by (rule less_le_trans)
  have "floor_log2 x = k" using assms(1,2) by (rule floor_log2_unique)
  then have e: "dbl_expo x = e" by (simp add: dbl_expo_def assms(3))
  have "round_even (x / 2 powi e) = m" using assms(4,5) by (rule round_even_eq)
  then have "round_pos x = of_int m * 2 powi e" by (simp add: round_pos_def e)
  then show ?thesis using pos assms(6) by (simp add: to_double_def)
qed

lemma round_pos_grid:
  "\<exists>j::int. round_pos x = of_int j * 2 powi (- 1074)"
proof -
  define e where "e = dbl_expo x"
  have e: "- 1074 \<le> e" by (simp add: e_def dbl_expo_def)
  have "(2::rat) powi (e + 1074) * 2 powi (- 1074) = 2 powi (e + 1074 + - 1074)"
    by (rule power_int_add[symmetric]) simp
  also have "e + 1074 + - 1074 = e" by simp
  finally have "(2::rat) powi e = 2 powi (e + 1074) * 2 powi (- 1074)" by (rule sym)
  also have "(2::rat) powi (e + 1074) = of_int (2 ^ nat (e + 1074))"
    using e by (simp add: power_int_def)
  finally have "(2::rat) powi e = of_int (2 ^ nat (e + 1074)) * 2 powi (- 1074)" .
  then have "round_pos x =
      of_int (round_even (x / 2 powi e) * 2 ^ nat (e + 1074)) * 2 powi (- 1074)"
    by (simp only: round_pos_def e_def[symmetric] of_int_mult mult.assoc)
  then show ?thesis by blast
qed

lemma to_double_grid:
  assumes "to_double x = Finite r"
  shows "\<exists>j::int. r = of_int j * 2 powi (- 1074)"
proof -
  obtain j :: int where j: "round_pos x = of_int j * 2 powi (- 1074)"
    using round_pos_grid by blast
  obtain j' :: int where j': "round_pos (- x) = of_int j' * 2 powi (- 1074)"
    using round_pos_grid by blast
  have "r = 0 \<or> r = round_pos x \<or> r = - round_pos (- x)"
    using assms by (auto simp: to_double_def split: if_splits)
  then consider "r = of_int 0 * 2 powi (- 1074)" | "r = of_int j * 2 powi (- 1074)"
    | "r = of_int (- j') * 2 powi (- 1074)"
    using j j' by auto
  then show ?thesis by (cases; blast)
qed

lemma round_pos_pos:
  assumes "2 powi (- 1074) \<le> x"
  shows "0 < round_pos x"
proof -
  have pos: "0 < x" using assms powi2_pos[of "- 1074"] by (rule less_le_trans[rotated])
  define e where "e = dbl_expo x"
  have "1 \<le> x / 2 powi e"
  proof (cases "e = - 1074")
    case True
    then show ?thesis using assms powi2_pos[of "- 1074"] by (simp add: le_divide_eq)
  next
    case False
    then have e: "e = floor_log2 x - 52" by (auto simp: e_def dbl_expo_def)
    have "(1::rat) \<le> 2 powi 52" by simp
    also have "\<dots> = 2 powi (floor_log2 x - e)" by (simp add: e)
    also have "\<dots> = 2 powi floor_log2 x / 2 powi e" by (rule powi2_div[symmetric])
    also have "\<dots> \<le> x / 2 powi e"
      using floor_log2_bounds(1)[OF pos] powi2_pos[of e] by (simp add: divide_right_mono)
    finally show ?thesis .
  qed
  then have "of_int 1 \<le> x / 2 powi e" by simp
  then have "1 \<le> round_even (x / 2 powi e)" by (rule round_even_ge)
  then have "0 < (of_int (round_even (x / 2 powi e)) :: rat)" by simp
  then show ?thesis using powi2_pos[of e] by (simp add: round_pos_def e_def)
qed

lemma grid_gap:
  assumes "a = of_int i * 2 powi (- 1074)" "b = of_int j * 2 powi (- 1074)" "a < b"
  shows "(2::rat) powi (- 1074) \<le> b - a"
proof -
  have g: "(0::rat) < 2 powi (- 1074)" by (rule powi2_pos)
  have "i < j"
  proof (rule ccontr)
    assume "\<not> i < j"
    then have "(of_int j :: rat) \<le> of_int i" by simp
    then have "b \<le> a" unfolding assms(1,2) using g by (intro mult_right_mono) auto
    with assms(3) show False by simp
  qed
  then have "(1::rat) \<le> of_int (j - i)" by simp
  then have "1 * 2 powi (- 1074) \<le> of_int (j - i) * (2::rat) powi (- 1074)"
    using g by (intro mult_right_mono) auto
  then show ?thesis by (simp add: assms(1,2) algebra_simps)
qed

lemma to_double_sign:
  assumes "a = of_int i * 2 powi (- 1074)" "b = of_int j * 2 powi (- 1074)"
  shows "num_lt (Finite 0) (to_double (b - a)) \<longleftrightarrow> a < b"
proof (cases "a < b")
  case True
  then have "0 < round_pos (b - a)" using grid_gap[OF assms] by (intro round_pos_pos)
  then show ?thesis using True by (simp add: to_double_def)
next
  case False
  then have "b - a \<le> 0" by simp
  then have "b - a = 0 \<or> (0 < - (b - a) \<and> 0 \<le> round_pos (- (b - a)))"
    using round_pos_nonneg[of "- (b - a)"] by auto
  then show ?thesis using False by (auto simp: to_double_def)
qed

lemma num_lt_trans: "num_lt a b \<Longrightarrow> num_lt b c \<Longrightarrow> num_lt a c"
  by (cases a; cases b; cases c) auto

lemma num_lt_negtrans:
  "b \<noteq> NaN \<Longrightarrow> \<not> num_lt a b \<Longrightarrow> \<not> num_lt b c \<Longrightarrow> \<not> num_lt a c"
  by (cases a; cases b; cases c) auto

lemma parseFloat_grid:
  assumes "parseFloat s = Finite r"
  shows "\<exists>j::int. r = of_int j * 2 powi (- 1074)"
proof -
  have "parseFloat s = NaN \<or> parseFloat s = PosInf \<or> parseFloat s = NegInf \<or>
        (\<exists>v. parseFloat s = to_double v)"
    by (auto simp: parseFloat_def Let_def split: option.splits)
  then show ?thesis using assms to_double_grid by (metis number.distinct(1,3,5))
qed

lemma num_minus_sign:
  assumes "parseFloat s \<noteq> NaN" "parseFloat t \<noteq> NaN"
  shows "num_lt (Finite 0) (num_minus (parseFloat t) (parseFloat s)) \<longleftrightarrow>
         num_lt (parseFloat s) (parseFloat t)"
proof (cases "parseFloat s")
  case a: (Finite a)
  show ?thesis
  proof (cases "parseFloat t")
    case b: (Finite b)
    obtain i j :: int where "a = of_int i * 2 powi (- 1074)" "b = of_int j * 2 powi (- 1074)"
      using parseFloat_grid[OF a] parseFloat_grid[OF b] by blast
    from to_double_sign[OF this] show ?thesis by (simp add: a b num_minus_def)
  qed (use assms in \<open>auto simp: a num_minus_def\<close>)
next
  case PosInf
  then show ?thesis using assms by (cases "parseFloat t") (auto simp: num_minus_def)
next
  case NegInf
  then show ?thesis using assms by (cases "parseFloat t") (auto simp: num_minus_def)
next
  case NaN
  then show ?thesis using assms by simp
qed

section \<open>The stable sort and its first element\<close>

lemma length_insort_by: "length (insort_by cmp x ys) = Suc (length ys)"
  by (induction ys) auto

lemma sort_by_Nil: "sort_by cmp [] = []"
  by (simp add: sort_by_def)

lemma sort_by_Cons: "sort_by cmp (x # xs) = insort_by cmp x (sort_by cmp xs)"
  by (simp add: sort_by_def)

lemma length_sort_by: "length (sort_by cmp xs) = length xs"
  by (induction xs) (simp_all add: sort_by_Nil sort_by_Cons length_insort_by)

lemma hd_insort_by:
  "hd (insort_by cmp x ys) =
     (if ys \<noteq> [] \<and> num_lt (Finite 0) (cmp x (hd ys)) then hd ys else x)"
  by (cases ys) auto

lemma hd_sort_by_first_best:
  assumes cmp: "\<And>a b. a \<in> set xs \<Longrightarrow> b \<in> set xs \<Longrightarrow>
                  num_lt (Finite 0) (cmp a b) \<longleftrightarrow> worse a b"
    and tr: "\<And>a b c. worse a b \<Longrightarrow> worse b c \<Longrightarrow> worse a c"
    and ntr: "\<And>a b c. b \<in> set xs \<Longrightarrow> \<not> worse a b \<Longrightarrow> \<not> worse b c \<Longrightarrow> \<not> worse a c"
    and ne: "xs \<noteq> []"
  shows "\<exists>ys best zs. xs = ys @ best # zs \<and> hd (sort_by cmp xs) = best \<and>
           (\<forall>y\<in>set ys. worse y best) \<and> (\<forall>z\<in>set zs. \<not> worse best z)"
  using ne cmp ntr
proof (induction xs rule: list_nonempty_induct)
  case (single x)
  show ?case
    by (rule exI[of _ "[]"], rule exI[of _ x], rule exI[of _ "[]"])
      (simp add: sort_by_Cons sort_by_Nil)
next
  case (cons x xs)
  have "\<exists>ys best zs. xs = ys @ best # zs \<and> hd (sort_by cmp xs) = best \<and>
           (\<forall>y\<in>set ys. worse y best) \<and> (\<forall>z\<in>set zs. \<not> worse best z)"
  proof (rule cons.IH)
    show "num_lt (Finite 0) (cmp a b) \<longleftrightarrow> worse a b" if "a \<in> set xs" "b \<in> set xs" for a b
      using cons.prems(1)[of a b] that by simp
    show "\<not> worse a c" if "b \<in> set xs" "\<not> worse a b" "\<not> worse b c" for a b c
      using cons.prems(2)[of b a c] that by simp
  qed
  then obtain ys h zs where IH: "xs = ys @ h # zs" "hd (sort_by cmp xs) = h"
    "\<forall>y\<in>set ys. worse y h" "\<forall>z\<in>set zs. \<not> worse h z" by blast
  have ne: "sort_by cmp xs \<noteq> []" using cons.hyps length_sort_by[of cmp xs] by auto
  have hin: "h \<in> set xs" using IH(1) by simp
  have "num_lt (Finite 0) (cmp x h) \<longleftrightarrow> worse x h"
    using cons.prems(1)[of x h] hin by simp
  then have hd: "hd (sort_by cmp (x # xs)) = (if worse x h then h else x)"
    by (simp add: sort_by_Cons hd_insort_by ne IH(2))
  show ?case
  proof (cases "worse x h")
    case True
    have "x # xs = (x # ys) @ h # zs" using IH(1) by simp
    moreover have "hd (sort_by cmp (x # xs)) = h" using hd True by simp
    moreover have "\<forall>y\<in>set (x # ys). worse y h" using True IH(3) by simp
    ultimately show ?thesis using IH(4) by blast
  next
    case False
    have "\<not> worse x z" if "z \<in> set xs" for z
    proof -
      from that IH(1) consider "z \<in> set ys" | "z = h" | "z \<in> set zs" by auto
      then show ?thesis
      proof cases
        case 1
        then have "worse z h" using IH(3) by blast
        then show ?thesis using False tr by blast
      next
        case 2
        then show ?thesis using False by simp
      next
        case 3
        then have "\<not> worse h z" using IH(4) by blast
        then show ?thesis using False cons.prems(2)[of h x z] hin by simp
      qed
    qed
    then have "\<forall>z\<in>set xs. \<not> worse x z" by blast
    moreover have "x # xs = [] @ x # xs" by simp
    moreover have "hd (sort_by cmp (x # xs)) = x" using hd False by simp
    moreover have "\<forall>y\<in>set ([]::'a list). worse y x" by simp
    ultimately show ?thesis by blast
  qed
qed

section \<open>The order gate and the position ledger\<close>

lemma big_val_consts: "big_val (Big 0 0) = 0" "big_val (Big 1 0) = 1"
  by (simp_all add: big_val_def)

lemmas scan_defs = scan_mantissa_def scan_exponent_def is_space_def is_digit_def
  digits_val_def digit_val_def Let_def

lemmas new_Big_defs = new_Big_def parse_unsigned_def scan_defs norm_big_def strip10.simps

text \<open>
  Claim C1. For every candidate order, \<^verbatim>\<open>placeOrder\<close> sends the order to the API's
  order-creation call if and only if the size lies between the configured minimum and
  maximum and the price between 0 and 1, bounds included, all compared as exact decimals.
  When a bound is violated it throws, and it has made no network call by then: the bot's
  state, with its record of calls, is as it was.
\<close>

theorem placeOrder_gate:
  "if within_bounds cfg params
   then \<exists>rest. calls (snd (placeOrder api cfg st params)) = calls st @ CreateOrder params # rest
   else (\<exists>err. fst (placeOrder api cfg st params) = Inl err) \<and>
        snd (placeOrder api cfg st params) = st"
  by (auto simp: within_bounds_def placeOrder_def refreshPositions_def Let_def big_lt_def
      big_gt_def big_val_consts split: option.splits sum.splits prod.splits)

theorem placeOrder_gate_witness:
  "within_bounds example_config example_params \<and>
   (\<exists>rest. calls (snd (placeOrder (example_api (Inr []) (Inl DivisionByZero)) example_config
                           example_bot example_params)) =
            calls example_bot @ CreateOrder example_params # rest) \<and>
   \<not> within_bounds example_config (example_params\<lparr>c_price := ''1.01''\<rparr>) \<and>
   snd (placeOrder (example_api (Inr []) (Inl DivisionByZero)) example_config example_bot
          (example_params\<lparr>c_price := ''1.01''\<rparr>)) = example_bot"
proof -
  have a: "within_bounds example_config example_params"
    by (simp add: within_bounds_def example_config_def example_params_def new_Big_defs
        big_val_def)
  have b: "\<not> within_bounds example_config (example_params\<lparr>c_price := ''1.01''\<rparr>)"
    by (simp add: within_bounds_def example_config_def example_params_def new_Big_defs
        big_val_def)
  show ?thesis
    using a b
      placeOrder_gate[of example_config example_params
        "example_api (Inr []) (Inl DivisionByZero)" example_bot]
      placeOrder_gate[of example_config "example_params\<lparr>c_price := ''1.01''\<rparr>"
        "example_api (Inr []) (Inl DivisionByZero)" example_bot]
    by simp
qed

text \<open>
  Claim C10. \<^verbatim>\<open>refreshPositions\<close> changes nothing when it fails: if the fetch of the
  account's positions throws, the error reaches the caller and the position map is exactly
  the one from before the call; the map is cleared and refilled only after the fetch has
  answered.
\<close>

theorem refreshPositions_failure_atomic:
  "getPositions api (calls st) (accountAddress st) = Inl err \<Longrightarrow>
     fst (refreshPositions api st) = Inl err \<and>
     positions (snd (refreshPositions api st)) = positions st"
  by (simp add: refreshPositions_def Let_def)

theorem refreshPositions_failure_atomic_witness:
  "fst (refreshPositions (example_api (Inl (ApiFailure ''timeout'')) (Inl DivisionByZero))
          example_bot) = Inl (ApiFailure ''timeout'') \<and>
   positions (snd (refreshPositions (example_api (Inl (ApiFailure ''timeout''))
                                       (Inl DivisionByZero)) example_bot)) =
     [(''m1-yes'', example_position ''m1'' ''yes'')]"
  using refreshPositions_failure_atomic[of
      "example_api (Inl (ApiFailure ''timeout'')) (Inl DivisionByZero)" example_bot
      "ApiFailure ''timeout''"]
  by (simp add: example_api_def example_bot_def)

text \<open>
  Claim C9, which the code does not meet. The ledger's key is the market, a hyphen and the
  outcome, and the two parts cannot be told apart again when the outcome contains a
  hyphen: after a refresh that has fetched one position, for market \<open>a-b\<close> and outcome
  \<open>c\<close>, the lookup for market \<open>a\<close> and outcome \<open>b-c\<close> returns that position.
\<close>

theorem getPosition_key_collision:
  "getPosition
     (snd (refreshPositions
             (example_api (Inr [example_position ''a-b'' ''c'']) (Inl DivisionByZero))
             example_bot))
     ''a'' ''b-c'' = Some (example_position ''a-b'' ''c'') \<and>
   p_market (example_position ''a-b'' ''c'') \<noteq> ''a''"
  by (simp add: getPosition_def refreshPositions_def example_api_def example_bot_def
      example_position_def map_key_def Let_def)

section \<open>Copy trading\<close>

text \<open>
  Claim C4. The copy-trading bot mirrors a trade of a followed trader only when the
  followed address is the trade's taker: for every trade whose taker is another address,
  so that the followed address can only be its maker, \<^verbatim>\<open>processTraderTrade\<close> returns
  without placing an order, and leaves the bot as it was.
\<close>

theorem processTraderTrade_taker_only:
  "t_taker trade \<noteq> traderAddress \<Longrightarrow> processTraderTrade api cfg st traderAddress trade = st"
  by (simp add: processTraderTrade_def Let_def split: option.splits)

theorem processTraderTrade_taker_only_witness:
  "t_taker (example_trade ''0xB'' ''0xT'') \<noteq> ''0xT'' \<and>
   processTraderTrade (example_api (Inr []) (Inl DivisionByZero)) example_config following_bot
     ''0xT'' (example_trade ''0xB'' ''0xT'') = following_bot"
  using processTraderTrade_taker_only[of "example_trade ''0xB'' ''0xT''" "''0xT''"
      "example_api (Inr []) (Inl DivisionByZero)" example_config following_bot]
  by (simp add: example_trade_def)

section \<open>The values of the decimal operations\<close>

lemma strip10_val: "big_val (strip10 m e) = of_int m * 10 powi e"
proof (induction m e rule: strip10.induct)
  case (1 m e)
  show ?case
  proof (cases "m \<noteq> 0 \<and> m mod 10 = 0")
    case True
    then have m: "m = m div 10 * 10" by presburger
    have "strip10 m e = strip10 (m div 10) (e + 1)"
      by (subst strip10.simps) (simp only: True simp_thms if_True)
    then have "big_val (strip10 m e) = of_int (m div 10) * 10 powi (e + 1)"
      using 1[OF True] by (simp only:)
    also have "(10::rat) powi (e + 1) = 10 powi e * 10"
      by (rule power_int_add_1) simp
    also have "of_int (m div 10) * (10 powi e * 10) = of_int (m div 10 * 10) * (10::rat) powi e"
      by simp
    also have "m div 10 * 10 = m" using m by simp
    finally show ?thesis .
  next
    case False
    have "strip10 m e = Big m e"
      by (subst strip10.simps) (simp only: False simp_thms if_False)
    then show ?thesis by (simp only: big_val_def big.sel)
  qed
qed

lemma norm_big_val: "big_val (norm_big m e) = of_int m * 10 powi e"
proof (cases "m = 0")
  case True
  then show ?thesis by (simp add: norm_big_def big_val_def)
next
  case False
  then show ?thesis by (simp only: norm_big_def if_False strip10_val)
qed

lemma powi10_split: "e \<le> a \<Longrightarrow> (10::rat) powi a = 10 ^ nat (a - e) * 10 powi e"
proof -
  assume "e \<le> a"
  then have "(10::rat) ^ nat (a - e) = 10 powi (a - e)" by (simp add: power_int_def)
  moreover have "(10::rat) powi (a - e) * 10 powi e = 10 powi (a - e + e)"
    by (rule power_int_add[symmetric]) simp
  ultimately show ?thesis by simp
qed

lemma big_plus_val: "big_val (big_plus a b) = big_val a + big_val b"
proof -
  define e where "e = min (expo a) (expo b)"
  have le: "e \<le> expo a" "e \<le> expo b" by (simp_all add: e_def)
  have "big_val (big_plus a b) =
      of_int (coef a * 10 ^ nat (expo a - e) + coef b * 10 ^ nat (expo b - e)) * 10 powi e"
    by (simp only: big_plus_def Let_def norm_big_val e_def)
  also have "\<dots> = of_int (coef a) * (10 ^ nat (expo a - e) * 10 powi e) +
      of_int (coef b) * (10 ^ nat (expo b - e) * 10 powi e)"
    by (simp add: algebra_simps)
  also have "\<dots> = big_val a + big_val b"
    by (simp only: powi10_split[OF le(1), symmetric] powi10_split[OF le(2), symmetric]
        big_val_def)
  finally show ?thesis .
qed

lemma big_minus_val: "big_val (big_minus a b) = big_val a - big_val b"
  by (simp add: big_minus_def big_plus_val) (simp add: big_val_def)

lemma big_val_zero_iff: "big_val b = 0 \<longleftrightarrow> coef b = 0"
  by (simp add: big_val_def)

lemma round_half_up_val:
  assumes "d \<noteq> 0"
  shows "(of_int (round_half_up n d) :: rat) =
           sgn (of_int n / of_int d) * of_int \<lfloor>\<bar>of_int n / of_int d :: rat\<bar> + 1 / 2\<rfloor>"
proof -
  have d: "(of_int \<bar>d\<bar> :: rat) \<noteq> 0" using assms by simp
  have "(of_int (2 * \<bar>n\<bar> + \<bar>d\<bar>) :: rat) / of_int (2 * \<bar>d\<bar>) = \<bar>of_int n / of_int d\<bar> + 1 / 2"
    using d by (simp add: field_simps)
  then have F: "\<lfloor>\<bar>of_int n / of_int d :: rat\<bar> + 1 / 2\<rfloor> = (2 * \<bar>n\<bar> + \<bar>d\<bar>) div (2 * \<bar>d\<bar>)"
    by (metis floor_divide_of_int_eq)
  have S: "sgn (of_int n / of_int d :: rat) = of_int (sgn n * sgn d)"
    using assms by (auto simp: sgn_if zero_less_divide_iff divide_less_0_iff not_less)
  have "(of_int (round_half_up n d) :: rat) =
      of_int (sgn n * sgn d) * of_int ((2 * \<bar>n\<bar> + \<bar>d\<bar>) div (2 * \<bar>d\<bar>))"
    by (simp only: round_half_up_def of_int_mult)
  then show ?thesis by (simp only: F S)
qed

lemma big_div_None: "big_div a b = None \<longleftrightarrow> big_val b = 0"
  by (simp add: big_div_def big_val_zero_iff Let_def)

lemma big_div_val:
  assumes q: "big_div a b = Some q"
  shows "big_val q = round20 (big_val a / big_val b)"
proof -
  define c :: rat where "c = 10 ^ 20"
  have c: "0 < c" by (simp add: c_def)
  from q have nz: "coef b \<noteq> 0" by (auto simp: big_div_def split: if_splits)
  define t where "t = expo a - expo b + 20"
  define n where "n = (if 0 \<le> t then coef a * 10 ^ nat t else coef a)"
  define d where "d = (if 0 \<le> t then coef b else coef b * 10 ^ nat (- t))"
  define x where "x = big_val a / big_val b"
  have dnz: "d \<noteq> 0" using nz by (simp add: d_def)
  have qv: "q = norm_big (round_half_up n d) (- 20)"
    using q nz by (auto simp: big_div_def Let_def t_def n_def d_def split: if_splits)
  have "(10::rat) powi (expo a - expo b + 20) = 10 powi (expo a - expo b) * 10 powi 20"
    by (rule power_int_add) simp
  moreover have "(10::rat) powi (expo a - expo b) = 10 powi expo a / 10 powi expo b"
    by (rule power_int_diff) simp
  ultimately have "(10::rat) powi expo a / 10 powi expo b * 10 powi 20 =
      10 powi (expo a - expo b + 20)" by simp
  then have p: "(10::rat) powi expo a / 10 powi expo b * c = 10 powi t"
    by (simp add: t_def c_def)
  have "(10::rat) powi t = (if 0 \<le> t then 10 ^ nat t else 1 / 10 ^ nat (- t))"
    by (auto simp: power_int_def field_simps)
  with p have "(10::rat) powi expo a / 10 powi expo b * c =
      (if 0 \<le> t then 10 ^ nat t else 1 / 10 ^ nat (- t))" by simp
  moreover have "x * c = of_int (coef a) / of_int (coef b) *
      (10 powi expo a / 10 powi expo b * c)"
    by (simp add: x_def big_val_def)
  ultimately have "x * c = of_int (coef a) / of_int (coef b) *
      (if 0 \<le> t then 10 ^ nat t else 1 / 10 ^ nat (- t))" by simp
  then have ratio: "(of_int n :: rat) / of_int d = x * c" by (simp add: n_def d_def)
  have "big_val q = of_int (round_half_up n d) * 10 powi (- 20)"
    by (simp only: qv norm_big_val)
  also have "(10::rat) powi (- 20) = 1 / c" by (simp add: c_def power_int_minus)
  also have "of_int (round_half_up n d) = sgn (x * c) * of_int \<lfloor>\<bar>x * c\<bar> + 1 / 2\<rfloor>"
    using round_half_up_val[OF dnz, of n] by (simp only: ratio)
  also have "sgn (x * c) = sgn x" using c by (simp add: sgn_mult)
  also have "\<bar>x * c\<bar> = \<bar>x\<bar> * c" using c by (simp add: abs_mult)
  finally have "big_val q = sgn x * of_int \<lfloor>\<bar>x\<bar> * c + 1 / 2\<rfloor> * (1 / c)" .
  then show ?thesis unfolding round20_def x_def c_def by simp
qed

section \<open>The best bid and the best ask\<close>

lemma parseFloat_Nil: "parseFloat [] = NaN"
  by (simp add: parseFloat_def scan_defs)

lemma best_bid_first_largest:
  assumes "\<forall>x\<in>set bs. parseFloat (o_price x) \<noteq> NaN" "bs \<noteq> []"
  shows "\<exists>ys b zs. bs = ys @ b # zs \<and> hd (sort_by bid_cmp bs) = b \<and>
           (\<forall>y\<in>set ys. num_lt (parseFloat (o_price y)) (parseFloat (o_price b))) \<and>
           (\<forall>z\<in>set zs. \<not> num_lt (parseFloat (o_price b)) (parseFloat (o_price z)))"
proof (rule hd_sort_by_first_best[where worse = "\<lambda>a b. num_lt (parseFloat (o_price a))
      (parseFloat (o_price b))"])
  show "num_lt (Finite 0) (bid_cmp a b) =
      num_lt (parseFloat (o_price a)) (parseFloat (o_price b))"
    if "a \<in> set bs" "b \<in> set bs" for a b
    using that assms(1) num_minus_sign[of "o_price a" "o_price b"] by (simp add: bid_cmp_def)
  show "num_lt (parseFloat (o_price a)) (parseFloat (o_price c))"
    if "num_lt (parseFloat (o_price a)) (parseFloat (o_price b))"
      "num_lt (parseFloat (o_price b)) (parseFloat (o_price c))" for a b c :: Order
    using that by (rule num_lt_trans)
  show "\<not> num_lt (parseFloat (o_price a)) (parseFloat (o_price c))"
    if "b \<in> set bs" "\<not> num_lt (parseFloat (o_price a)) (parseFloat (o_price b))"
      "\<not> num_lt (parseFloat (o_price b)) (parseFloat (o_price c))" for a b c
    using that assms(1) num_lt_negtrans[of "parseFloat (o_price b)"] by blast
  show "bs \<noteq> []" by (rule assms(2))
qed

lemma best_ask_first_smallest:
  assumes "\<forall>x\<in>set as. parseFloat (o_price x) \<noteq> NaN" "as \<noteq> []"
  shows "\<exists>ys a zs. as = ys @ a # zs \<and> hd (sort_by ask_cmp as) = a \<and>
           (\<forall>y\<in>set ys. num_lt (parseFloat (o_price a)) (parseFloat (o_price y))) \<and>
           (\<forall>z\<in>set zs. \<not> num_lt (parseFloat (o_price z)) (parseFloat (o_price a)))"
proof (rule hd_sort_by_first_best[where worse = "\<lambda>a b. num_lt (parseFloat (o_price b))
      (parseFloat (o_price a))"])
  show "num_lt (Finite 0) (ask_cmp a b) =
      num_lt (parseFloat (o_price b)) (parseFloat (o_price a))"
    if "a \<in> set as" "b \<in> set as" for a b
    using that assms(1) num_minus_sign[of "o_price b" "o_price a"] by (simp add: ask_cmp_def)
  show "num_lt (parseFloat (o_price c)) (parseFloat (o_price a))"
    if "num_lt (parseFloat (o_price b)) (parseFloat (o_price a))"
      "num_lt (parseFloat (o_price c)) (parseFloat (o_price b))" for a b c :: Order
    using that(2,1) by (rule num_lt_trans)
  show "\<not> num_lt (parseFloat (o_price c)) (parseFloat (o_price a))"
    if "b \<in> set as" "\<not> num_lt (parseFloat (o_price b)) (parseFloat (o_price a))"
      "\<not> num_lt (parseFloat (o_price c)) (parseFloat (o_price b))" for a b c
    using that assms(1) num_lt_negtrans[of "parseFloat (o_price b)"] by blast
  show "as \<noteq> []" by (rule assms(2))
qed

lemma sort_by_hd_Cons: "xs \<noteq> [] \<Longrightarrow> \<exists>t. sort_by cmp xs = hd (sort_by cmp xs) # t"
  using length_sort_by[of cmp xs] by (cases "sort_by cmp xs") auto

lemma sort_by_empty_iff: "sort_by cmp xs = [] \<longleftrightarrow> xs = []"
  using length_sort_by[of cmp xs] by auto

lemma best_orders:
  assumes "bids book \<noteq> []" "asks book \<noteq> []"
    and "\<forall>x\<in>set (bids book) \<union> set (asks book). parseFloat (o_price x) \<noteq> NaN"
  shows "\<exists>ys b zs bt ys' a zs' atl.
           bids book = ys @ b # zs \<and>
           (\<forall>y\<in>set ys. num_lt (parseFloat (o_price y)) (parseFloat (o_price b))) \<and>
           (\<forall>z\<in>set zs. \<not> num_lt (parseFloat (o_price b)) (parseFloat (o_price z))) \<and>
           asks book = ys' @ a # zs' \<and>
           (\<forall>y\<in>set ys'. num_lt (parseFloat (o_price a)) (parseFloat (o_price y))) \<and>
           (\<forall>z\<in>set zs'. \<not> num_lt (parseFloat (o_price z)) (parseFloat (o_price a))) \<and>
           sort_by bid_cmp (bids book) = b # bt \<and> sort_by ask_cmp (asks book) = a # atl \<and>
           o_price b \<noteq> [] \<and> o_price a \<noteq> []"
proof -
  from assms have nb: "\<forall>x\<in>set (bids book). parseFloat (o_price x) \<noteq> NaN"
    and na: "\<forall>x\<in>set (asks book). parseFloat (o_price x) \<noteq> NaN" by auto
  from best_bid_first_largest[OF nb assms(1)] obtain ys b zs where
    b: "bids book = ys @ b # zs" "hd (sort_by bid_cmp (bids book)) = b"
      "\<forall>y\<in>set ys. num_lt (parseFloat (o_price y)) (parseFloat (o_price b))"
      "\<forall>z\<in>set zs. \<not> num_lt (parseFloat (o_price b)) (parseFloat (o_price z))" by blast
  from best_ask_first_smallest[OF na assms(2)] obtain ys' a zs' where
    a: "asks book = ys' @ a # zs'" "hd (sort_by ask_cmp (asks book)) = a"
      "\<forall>y\<in>set ys'. num_lt (parseFloat (o_price a)) (parseFloat (o_price y))"
      "\<forall>z\<in>set zs'. \<not> num_lt (parseFloat (o_price z)) (parseFloat (o_price a))" by blast
  obtain bt where bt: "sort_by bid_cmp (bids book) = b # bt"
    using sort_by_hd_Cons[OF assms(1), of bid_cmp] b(2) by auto
  obtain atl where atl: "sort_by ask_cmp (asks book) = a # atl"
    using sort_by_hd_Cons[OF assms(2), of ask_cmp] a(2) by auto
  have "b \<in> set (bids book)" "a \<in> set (asks book)" using b(1) a(1) by simp_all
  then have "parseFloat (o_price b) \<noteq> NaN" "parseFloat (o_price a) \<noteq> NaN"
    using nb na by blast+
  then have "o_price b \<noteq> []" "o_price a \<noteq> []" using parseFloat_Nil by auto
  with b a bt atl show ?thesis by blast
qed

section \<open>The calls made by the order gate\<close>

lemma placeOrder_accepted:
  "within_bounds cfg params \<Longrightarrow>
     \<exists>rest. calls (snd (placeOrder api cfg st params)) = calls st @ CreateOrder params # rest"
  by (auto simp: within_bounds_def placeOrder_def refreshPositions_def Let_def big_lt_def
      big_gt_def big_val_consts split: option.splits sum.splits prod.splits)

lemma placeOrder_calls:
  "\<exists>new. calls (snd (placeOrder api cfg st p)) = calls st @ new \<and>
         (\<forall>q. CreateOrder q \<in> set new \<longrightarrow> q = p) \<and>
         (within_bounds cfg p \<longrightarrow> new \<noteq> [] \<and> hd new = CreateOrder p) \<and>
         activeOpportunities (snd (placeOrder api cfg st p)) = activeOpportunities st"
proof (cases "within_bounds cfg p")
  case False
  then have "snd (placeOrder api cfg st p) = st"
    by (auto simp: within_bounds_def placeOrder_def Let_def big_lt_def big_gt_def
        big_val_consts split: option.splits)
  then show ?thesis using False by simp
next
  case True
  then have "calls (snd (placeOrder api cfg st p)) = calls st @ [CreateOrder p] \<or>
      calls (snd (placeOrder api cfg st p)) =
        calls st @ [CreateOrder p, GetPositions (accountAddress st)]"
    and "activeOpportunities (snd (placeOrder api cfg st p)) = activeOpportunities st"
    by (auto simp: within_bounds_def placeOrder_def refreshPositions_def Let_def big_lt_def
        big_gt_def big_val_consts split: option.splits sum.splits prod.splits)
  then show ?thesis by auto
qed

section \<open>The bots stop at the call of Big.min\<close>

text \<open>
  Each bot calls \<^verbatim>\<open>Big.min\<close> before it reaches an order or an opportunity, and each call
  throws into the handler of the function around it. So a trade is never mirrored, an
  opportunity is never found, and an arbitrage is never executed: the functions hand the
  bot back as it was (the search with the fetch of the book recorded).
\<close>

lemma processTraderTrade_unchanged: "processTraderTrade api cfg st traderAddress trade = st"
  by (simp add: processTraderTrade_def Big_min_def Let_def split: option.splits)

lemma findArbitrageOpportunity_null:
  "findArbitrageOpportunity api cfg st marketId outcome =
     (None, st\<lparr>calls := calls st @ [GetOrderBook marketId outcome]\<rparr>)"
  by (simp add: findArbitrageOpportunity_def Big_min_def Let_def
      split: sum.splits list.splits option.splits)

lemma delete_absent: "map_of al k = None \<Longrightarrow> AList.delete k al = al"
  by (simp add: map_of_eq_None_iff)

lemma executeArbitrage_unchanged: "executeArbitrage api cfg st opportunity = st"
  by (simp add: executeArbitrage_def Big_min_def Let_def delete_absent split: option.splits)

section \<open>De-duplication of arbitrage executions\<close>

text \<open>
  Claim C7. While an opportunity for a market and outcome is in the set of active
  opportunities, a further call of \<^verbatim>\<open>executeArbitrage\<close> for the same market and outcome
  returns without placing an order: the duplicate is dropped, nothing is queued, and the
  bot is left as it was. The same holds in a state in which the key has just been
  entered, and in the state that a buy sent from there leaves behind: a call for the same
  market and outcome, with whatever API and configuration, is dropped.
\<close>

theorem executeArbitrage_deduplicates:
  "(map_of (activeOpportunities st) (map_key (a_market opp) (a_outcome opp)) = Some running \<longrightarrow>
      executeArbitrage api cfg st opp = st) \<and>
   (a_market dup = a_market opp \<and> a_outcome dup = a_outcome opp \<longrightarrow>
      (let key = map_key (a_market opp) (a_outcome opp);
           st1 = st\<lparr>activeOpportunities := AList.update key opp (activeOpportunities st)\<rparr>;
           st2 = snd (buy api cfg st1 (a_market opp) (a_outcome opp) (buyPrice opp) tradeSize)
       in executeArbitrage api' cfg' st1 dup = st1 \<and>
          executeArbitrage api' cfg' st2 dup = st2))"
proof (intro conjI impI)
  assume "map_of (activeOpportunities st) (map_key (a_market opp) (a_outcome opp)) =
      Some running"
  then show "executeArbitrage api cfg st opp = st"
    by (simp add: executeArbitrage_def Let_def)
next
  assume same: "a_market dup = a_market opp \<and> a_outcome dup = a_outcome opp"
  define key where "key = map_key (a_market opp) (a_outcome opp)"
  define st1 where
    "st1 = st\<lparr>activeOpportunities := AList.update key opp (activeOpportunities st)\<rparr>"
  define st2 where
    "st2 = snd (buy api cfg st1 (a_market opp) (a_outcome opp) (buyPrice opp) tradeSize)"
  have k1: "map_of (activeOpportunities st1) key = Some opp"
    by (simp add: st1_def update_conv')
  have "activeOpportunities st2 = activeOpportunities st1"
    using placeOrder_calls[of api cfg st1] by (auto simp: st2_def buy_def)
  with k1 have k2: "map_of (activeOpportunities st2) key = Some opp" by simp
  have "executeArbitrage api' cfg' st1 dup = st1" "executeArbitrage api' cfg' st2 dup = st2"
    using k1 k2 same by (simp_all add: executeArbitrage_def Let_def key_def)
  then show "let key = map_key (a_market opp) (a_outcome opp);
           st1 = st\<lparr>activeOpportunities := AList.update key opp (activeOpportunities st)\<rparr>;
           st2 = snd (buy api cfg st1 (a_market opp) (a_outcome opp) (buyPrice opp) tradeSize)
       in executeArbitrage api' cfg' st1 dup = st1 \<and>
          executeArbitrage api' cfg' st2 dup = st2"
    by (simp add: Let_def key_def st1_def st2_def)
qed


theorem executeArbitrage_deduplicates_witness:
  "map_of (activeOpportunities
             (example_bot\<lparr>activeOpportunities := [(''m1-yes'', example_opportunity)]\<rparr>))
     (map_key (a_market example_opportunity) (a_outcome example_opportunity)) =
     Some example_opportunity \<and>
   executeArbitrage (example_api (Inr []) (Inl DivisionByZero)) example_config
     (example_bot\<lparr>activeOpportunities := [(''m1-yes'', example_opportunity)]\<rparr>)
     example_opportunity =
   example_bot\<lparr>activeOpportunities := [(''m1-yes'', example_opportunity)]\<rparr> \<and>
   a_market example_opportunity = ''m1'' \<and> a_outcome example_opportunity = ''yes'' \<and>
   executeArbitrage (example_api (Inr []) (Inl DivisionByZero)) example_config
     (example_bot\<lparr>activeOpportunities := [(''m1-yes'', example_opportunity)]\<rparr>)
     (example_opportunity\<lparr>buyPrice := ''0.1''\<rparr>) =
   example_bot\<lparr>activeOpportunities := [(''m1-yes'', example_opportunity)]\<rparr> \<and>
   executeArbitrage (example_api (Inr []) (Inl DivisionByZero)) example_config
     (snd (buy (example_api (Inr []) (Inl DivisionByZero)) example_config
        (example_bot\<lparr>activeOpportunities := [(''m1-yes'', example_opportunity)]\<rparr>)
        ''m1'' ''yes'' (buyPrice example_opportunity) ''8''))
     (example_opportunity\<lparr>buyPrice := ''0.1''\<rparr>) =
   snd (buy (example_api (Inr []) (Inl DivisionByZero)) example_config
        (example_bot\<lparr>activeOpportunities := [(''m1-yes'', example_opportunity)]\<rparr>)
        ''m1'' ''yes'' (buyPrice example_opportunity) ''8'')"
  using executeArbitrage_deduplicates[of
      "example_bot\<lparr>activeOpportunities := [(''m1-yes'', example_opportunity)]\<rparr>"
      example_opportunity example_opportunity
      "example_api (Inr []) (Inl DivisionByZero)" example_config
      "example_opportunity\<lparr>buyPrice := ''0.1''\<rparr>" "''8''"
      "example_api (Inr []) (Inl DivisionByZero)" example_config]
  by (simp add: example_opportunity_def map_key_def example_bot_def Let_def)

section \<open>The win-rate heuristic\<close>

lemma num_lt_PosInf [simp]: "\<not> num_lt PosInf x"
  by (cases x) auto

lemma to_double_095:
  "to_double (95 / 100) = Finite (4278419646001971 / 4503599627370496)"
  "to_double (19 / 20) = Finite (4278419646001971 / 4503599627370496)"
  using to_double_pos_eval[of "- 1" "95 / 100" "- 53" 8556839292003942]
  by (simp_all add: power_int_minus)

lemma half_plus_cases:
  assumes "0 \<le> x"
  shows "num_add (Finite (1 / 2)) (to_double x) = PosInf \<or>
         (\<exists>r. num_add (Finite (1 / 2)) (to_double x) = Finite r \<and> 0 \<le> r)"
proof -
  from to_double_nonneg_cases[OF assms] show ?thesis
  proof
    assume "to_double x = PosInf"
    then show ?thesis by simp
  next
    assume "\<exists>r. to_double x = Finite r \<and> 0 \<le> r"
    then obtain r where r: "to_double x = Finite r" "0 \<le> r" by blast
    then have "0 \<le> 1 / 2 + r" by simp
    from to_double_nonneg_cases[OF this] show ?thesis by (simp add: r)
  qed
qed

lemma half_plus_mono:
  assumes "0 \<le> x" "x \<le> y"
  shows "\<not> num_lt (num_add (Finite (1 / 2)) (to_double y))
                  (num_add (Finite (1 / 2)) (to_double x))"
proof -
  have y: "0 \<le> y" using assms by simp
  note m = to_double_mono[OF assms]
  from to_double_nonneg_cases[OF assms(1)] to_double_nonneg_cases[OF y] show ?thesis
  proof (elim disjE exE conjE)
    fix r s assume rs: "to_double x = Finite r" "0 \<le> r" "to_double y = Finite s" "0 \<le> s"
    with m have "r \<le> s" by simp
    then have "1 / 2 + r \<le> 1 / 2 + s" "0 \<le> 1 / 2 + r" using rs by simp_all
    from to_double_mono[OF this(2,1)] show ?thesis by (simp add: rs)
  next
    fix r assume "to_double x = Finite r" "0 \<le> r" "to_double y = PosInf"
    then show ?thesis by simp
  next
    fix s assume "to_double x = PosInf" "to_double y = Finite s"
    with m show ?thesis by simp
  next
    assume "to_double x = PosInf" "to_double y = PosInf"
    then show ?thesis by simp
  qed
qed

lemma Math_min_cases:
  assumes "y = PosInf \<or> (\<exists>r. y = Finite r \<and> 0 \<le> r)" "0 \<le> c"
  shows "\<exists>r. Math_min (Finite c) y = Finite r \<and> 0 \<le> r \<and> r \<le> c"
  using assms by (auto split: if_splits)

lemma Math_min_mono:
  assumes "y = PosInf \<or> (\<exists>r. y = Finite r)" "y' = PosInf \<or> (\<exists>r. y' = Finite r)"
    and "\<not> num_lt y' y"
  shows "\<not> num_lt (Math_min (Finite c) y') (Math_min (Finite c) y)"
  using assms by (auto split: if_splits)

lemma winRateFormula_range: "\<exists>r. winRateFormula n = Finite r \<and> 0 \<le> r \<and> r \<le> 95 / 100"
proof -
  have "(0::rat) \<le> of_nat n / 100" by simp
  from Math_min_cases[OF half_plus_cases[OF this], of "4278419646001971 / 4503599627370496"]
  obtain r where "Math_min (Finite (4278419646001971 / 4503599627370496))
      (num_add (Finite (1 / 2)) (to_double (of_nat n / 100))) = Finite r"
    "0 \<le> r" "r \<le> 4278419646001971 / 4503599627370496" by auto
  then have "winRateFormula n = Finite r \<and> 0 \<le> r \<and> r \<le> 95 / 100"
    by (simp add: winRateFormula_def to_double_095)
  then show ?thesis by blast
qed

lemma winRateFormula_mono:
  assumes "m \<le> n"
  shows "num_ge (winRateFormula n) (winRateFormula m)"
proof -
  have le: "(0::rat) \<le> of_nat m / 100" "(of_nat m :: rat) / 100 \<le> of_nat n / 100"
    using assms by simp_all
  have n0: "(0::rat) \<le> of_nat n / 100" by simp
  have a: "num_add (Finite (1 / 2)) (to_double (of_nat m / 100)) = PosInf \<or>
           (\<exists>r. num_add (Finite (1 / 2)) (to_double (of_nat m / 100)) = Finite r)"
    using half_plus_cases[OF le(1)] by blast
  have b: "num_add (Finite (1 / 2)) (to_double (of_nat n / 100)) = PosInf \<or>
           (\<exists>r. num_add (Finite (1 / 2)) (to_double (of_nat n / 100)) = Finite r)"
    using half_plus_cases[OF n0] by blast
  have "\<not> num_lt (winRateFormula n) (winRateFormula m)"
    using Math_min_mono[OF a b half_plus_mono[OF le]]
    by (simp add: winRateFormula_def to_double_095)
  moreover have "winRateFormula n \<noteq> NaN" "winRateFormula m \<noteq> NaN"
    using winRateFormula_range[of n] winRateFormula_range[of m] by auto
  ultimately show ?thesis by (simp add: num_ge_def)
qed

text \<open>
  Claim C3. \<^verbatim>\<open>calculateWinRate\<close> returns 0 for an empty trade list, 0.5 for a list
  with no trade within the last seven days, and otherwise \<^verbatim>\<open>min(0.95, 0.5 + n/100)\<close> for
  the number \<open>n\<close> of trades within the last seven days, in double arithmetic. This value
  does not decrease when \<open>n\<close> grows, and it never exceeds 0.95.
\<close>

theorem calculateWinRate_heuristic:
  "calculateWinRate now trades =
     (if trades = [] then Finite 0
      else if recentCount now trades = 0 then Finite (1 / 2)
      else winRateFormula (recentCount now trades)) \<and>
   (\<forall>m n. m \<le> n \<longrightarrow> num_ge (winRateFormula n) (winRateFormula m)) \<and>
   (\<forall>n. \<exists>r. winRateFormula n = Finite r \<and> 0 \<le> r \<and> r \<le> 95 / 100)"
  using winRateFormula_mono winRateFormula_range
  by (simp add: calculateWinRate_def recentCount_def winRateFormula_def Let_def)

theorem calculateWinRate_heuristic_witness:
  "calculateWinRate 1700000100000 [example_trade ''0xT'' ''0xM''] = winRateFormula 1 \<and>
   num_ge (winRateFormula 2) (winRateFormula 1) \<and>
   (\<exists>r. winRateFormula 1 = Finite r \<and> 0 \<le> r \<and> r \<le> 95 / 100)"
proof -
  have "recentCount 1700000100000 [example_trade ''0xT'' ''0xM''] = 1"
    by (simp add: recentCount_def example_trade_def)
  moreover have "(1::nat) \<le> 2" by simp
  ultimately show ?thesis
    using calculateWinRate_heuristic[of 1700000100000 "[example_trade ''0xT'' ''0xM'']"]
    by simp
qed

section \<open>The mirrored order\<close>

lemma scenario_values:
  "new_Big ''50'' = Some (Big 5 1)" "new_Big ''20'' = Some (Big 2 1)"
  by (simp_all add: new_Big_defs)

text \<open>
  Claim C6, which the code does not meet. The trade of the followed address as taker, with
  side buy, price 0.40 and size 50, under a slippage of 0.01 and a cap of 20, passes the
  checks of activity, confidence, taker and position count, and its size and the cap are
  read as the decimals 50 and 20. Then \<^verbatim>\<open>Big.min\<close> is called and throws; the error is
  caught and logged, the order gate is never reached, and the bot is left as it was with
  nothing sent to the API. The order that the claim expects, a buy at \<open>0.41\<close> of size
  \<open>20\<close>, would have passed the gate. No trade at all is mirrored, whatever the API, the
  configuration and the state are.
\<close>

theorem mirrored_order_not_submitted:
  "processTraderTrade api cfg st traderAddress trade = st \<and>
   map_of (traderActivities following_bot) ''0xT'' = Some example_activity \<and>
   num_ge (winRate example_activity) (minConfidence example_config) \<and>
   t_taker (example_trade ''0xT'' ''0xM'') = ''0xT'' \<and>
   t_side (example_trade ''0xT'' ''0xM'') = Buy \<and>
   canOpenPosition example_config following_bot \<and>
   new_Big (t_size (example_trade ''0xT'' ''0xM'')) = Some (Big 5 1) \<and>
   new_Big (copy_maxPositionSize example_config) = Some (Big 2 1) \<and>
   Big_min (Big 5 1) (Big 2 1) = Inl NotAFunction \<and>
   within_bounds example_config
     \<lparr>c_market = ''m1'', c_outcome = ''yes'', c_side = Buy, c_price = ''0.41'',
      c_size = ''20''\<rparr> \<and>
   calls following_bot = [] \<and>
   calls (processTraderTrade (example_api (Inr []) (Inl DivisionByZero)) example_config
            following_bot ''0xT'' (example_trade ''0xT'' ''0xM'')) = []"
proof -
  have "map_of (traderActivities following_bot) ''0xT'' = Some example_activity"
    "num_ge (winRate example_activity) (minConfidence example_config)"
    "canOpenPosition example_config following_bot"
    "calls following_bot = []"
    by (simp_all add: following_bot_def example_bot_def example_activity_def
        example_config_def canOpenPosition_def num_ge_def)
  moreover have "t_taker (example_trade ''0xT'' ''0xM'') = ''0xT''"
    "t_side (example_trade ''0xT'' ''0xM'') = Buy"
    "new_Big (t_size (example_trade ''0xT'' ''0xM'')) = Some (Big 5 1)"
    "new_Big (copy_maxPositionSize example_config) = Some (Big 2 1)"
    by (simp_all add: example_trade_def example_config_def scenario_values)
  moreover have "within_bounds example_config
     \<lparr>c_market = ''m1'', c_outcome = ''yes'', c_side = Buy, c_price = ''0.41'',
      c_size = ''20''\<rparr>"
    by (simp add: within_bounds_def example_config_def new_Big_defs big_val_def)
  ultimately show ?thesis
    by (simp add: processTraderTrade_unchanged Big_min_def)
qed

section \<open>Best prices\<close>

text \<open>
  Claim C5, as the code has it. The best bid is the first bid, in the order of the book,
  among those whose price read as a double by \<^verbatim>\<open>parseFloat\<close> is largest, and the best
  ask the first ask among those whose price read as a double is smallest, for every book
  whose prices all parse; two prices that round to the same double are not told apart.
  If a side of the book is empty, or the book cannot be fetched, \<^verbatim>\<open>getBestPrices\<close> and
  \<^verbatim>\<open>findArbitrageOpportunity\<close> return null; they never throw.
\<close>

theorem getBestPrices_first_by_double:
  "case getOrderBook api (calls st) m oc of
     Inl err \<Rightarrow>
       fst (getBestPrices api st m oc) = None \<and>
       fst (findArbitrageOpportunity api cfg st m oc) = None
   | Inr book \<Rightarrow>
       if bids book = [] \<or> asks book = [] then
         fst (getBestPrices api st m oc) = None \<and>
         fst (findArbitrageOpportunity api cfg st m oc) = None
       else
         (\<forall>x\<in>set (bids book) \<union> set (asks book). parseFloat (o_price x) \<noteq> NaN) \<longrightarrow>
         (\<exists>ys b zs ys' a zs'.
            bids book = ys @ b # zs \<and>
            (\<forall>y\<in>set ys. num_lt (parseFloat (o_price y)) (parseFloat (o_price b))) \<and>
            (\<forall>z\<in>set zs. \<not> num_lt (parseFloat (o_price b)) (parseFloat (o_price z))) \<and>
            asks book = ys' @ a # zs' \<and>
            (\<forall>y\<in>set ys'. num_lt (parseFloat (o_price a)) (parseFloat (o_price y))) \<and>
            (\<forall>z\<in>set zs'. \<not> num_lt (parseFloat (o_price z)) (parseFloat (o_price a))) \<and>
            fst (getBestPrices api st m oc) = Some (o_price b, o_price a))"
proof (cases "getOrderBook api (calls st) m oc")
  case (Inl err)
  then show ?thesis by (simp add: getBestPrices_def findArbitrageOpportunity_def Let_def)
next
  case (Inr book)
  show ?thesis
  proof (cases "bids book = [] \<or> asks book = []")
    case True
    then show ?thesis
      using Inr
      by (auto simp: getBestPrices_def findArbitrageOpportunity_def Let_def sort_by_Nil
          split: list.splits)
  next
    case False
    have "\<exists>ys b zs ys' a zs'.
            bids book = ys @ b # zs \<and>
            (\<forall>y\<in>set ys. num_lt (parseFloat (o_price y)) (parseFloat (o_price b))) \<and>
            (\<forall>z\<in>set zs. \<not> num_lt (parseFloat (o_price b)) (parseFloat (o_price z))) \<and>
            asks book = ys' @ a # zs' \<and>
            (\<forall>y\<in>set ys'. num_lt (parseFloat (o_price a)) (parseFloat (o_price y))) \<and>
            (\<forall>z\<in>set zs'. \<not> num_lt (parseFloat (o_price z)) (parseFloat (o_price a))) \<and>
            fst (getBestPrices api st m oc) = Some (o_price b, o_price a)"
      if nn: "\<forall>x\<in>set (bids book) \<union> set (asks book). parseFloat (o_price x) \<noteq> NaN"
    proof -
      from False have ne: "bids book \<noteq> []" "asks book \<noteq> []" by simp_all
      from best_orders[OF ne nn] obtain ys b zs bt ys' a zs' atl where
        h: "bids book = ys @ b # zs"
          "\<forall>y\<in>set ys. num_lt (parseFloat (o_price y)) (parseFloat (o_price b))"
          "\<forall>z\<in>set zs. \<not> num_lt (parseFloat (o_price b)) (parseFloat (o_price z))"
          "asks book = ys' @ a # zs'"
          "\<forall>y\<in>set ys'. num_lt (parseFloat (o_price a)) (parseFloat (o_price y))"
          "\<forall>z\<in>set zs'. \<not> num_lt (parseFloat (o_price z)) (parseFloat (o_price a))"
          "sort_by bid_cmp (bids book) = b # bt" "sort_by ask_cmp (asks book) = a # atl"
          "o_price b \<noteq> []" "o_price a \<noteq> []" by blast
      have "fst (getBestPrices api st m oc) = Some (o_price b, o_price a)"
        using Inr h(7-10) by (simp add: getBestPrices_def Let_def)
      with h(1-6) show ?thesis by blast
    qed
    then show ?thesis using Inr False by simp
  qed
qed

lemma to_double_not_NaN [simp]: "to_double x \<noteq> NaN"
  by (simp add: to_double_def)

lemma to_double_zero: "to_double 0 = Finite 0"
  by (simp add: to_double_def)

lemma floor_rat_numeral: "\<lfloor>numeral a / numeral b :: rat\<rfloor> = numeral a div numeral b"
  by (metis floor_divide_of_int_eq of_int_numeral)

lemma to_double_values:
  "to_double (1 / 10) = Finite (3602879701896397 / 36028797018963968)"
  "to_double (10000000000000000001 / 100000000000000000000) =
     Finite (3602879701896397 / 36028797018963968)"
  "to_double (1 / 50) = Finite (5764607523034235 / 288230376151711744)"
  "to_double (9090909090909090909 / 100000000000000000000) =
     Finite (3275345183542179 / 36028797018963968)"
  using to_double_pos_eval[of "- 4" "1 / 10" "- 56" 7205759403792794]
    to_double_pos_eval[of "- 4" "10000000000000000001 / 100000000000000000000" "- 56"
      7205759403792794]
    to_double_pos_eval[of "- 6" "1 / 50" "- 58" 5764607523034235]
    to_double_pos_eval[of "- 4" "9090909090909090909 / 100000000000000000000" "- 56"
      6550690367084358]
  by (simp_all add: power_int_minus)

lemmas example_defs = example_api_def example_book_def example_order_def example_bot_def
  example_config_def

lemma singleton_split: "[x] = ys @ y # zs \<Longrightarrow> y = x"
  by (cases ys) auto

theorem getBestPrices_first_by_double_witness:
  "fst (getBestPrices
          (example_api (Inr [])
             (Inr (example_book [example_order ''0.60'' ''10''] [example_order ''0.55'' ''8''])))
          example_bot ''m1'' ''yes'') = Some (''0.60'', ''0.55'')"
proof -
  define book where
    "book = example_book [example_order ''0.60'' ''10''] [example_order ''0.55'' ''8'']"
  have fetch: "getOrderBook (example_api (Inr []) (Inr book)) (calls example_bot) ''m1'' ''yes'' =
      Inr book"
    by (simp add: example_api_def)
  have ne: "\<not> (bids book = [] \<or> asks book = [])"
    by (simp add: book_def example_book_def)
  have nn: "\<forall>x\<in>set (bids book) \<union> set (asks book). parseFloat (o_price x) \<noteq> NaN"
    by (simp add: book_def example_book_def example_order_def parseFloat_def scan_defs)
  from getBestPrices_first_by_double[of "example_api (Inr []) (Inr book)" example_bot
      "''m1''" "''yes''" example_config]
  obtain ys b zs ys' a zs' where
    h: "bids book = ys @ b # zs" "asks book = ys' @ a # zs'"
      "fst (getBestPrices (example_api (Inr []) (Inr book)) example_bot ''m1'' ''yes'') =
         Some (o_price b, o_price a)"
    unfolding fetch using ne nn by auto
  have "b = example_order ''0.60'' ''10''" "a = example_order ''0.55'' ''8''"
    using h(1,2) singleton_split by (auto simp: book_def example_book_def)
  then show ?thesis using h(3) by (simp add: book_def example_order_def)
qed

text \<open>
  The claim as the specification states it, with the maximum taken over the exact prices,
  fails: of the bids at 0.1 and at 0.10000000000000000001, both of which \<^verbatim>\<open>parseFloat\<close>
  reads as the same double, the first in the book is returned, and it is the lower one.
\<close>

theorem best_bid_not_maximum:
  "fst (getBestPrices
          (example_api (Inr [])
             (Inr (example_book
                     [example_order ''0.1'' ''10'',
                      example_order ''0.10000000000000000001'' ''10'']
                     [example_order ''0.5'' ''8''])))
          example_bot ''m1'' ''yes'') = Some (''0.1'', ''0.5'') \<and>
   new_Big ''0.1'' = Some (Big 1 (- 1)) \<and>
   new_Big ''0.10000000000000000001'' = Some (Big 10000000000000000001 (- 20)) \<and>
   big_val (Big 1 (- 1)) < big_val (Big 10000000000000000001 (- 20))"
proof -
  have pf: "parseFloat ''0.1'' = Finite (3602879701896397 / 36028797018963968)"
    "parseFloat ''0.10000000000000000001'' = Finite (3602879701896397 / 36028797018963968)"
    by (simp_all add: parseFloat_def scan_defs to_double_values)
  have "fst (getBestPrices
          (example_api (Inr [])
             (Inr (example_book
                     [example_order ''0.1'' ''10'',
                      example_order ''0.10000000000000000001'' ''10'']
                     [example_order ''0.5'' ''8''])))
          example_bot ''m1'' ''yes'') = Some (''0.1'', ''0.5'')"
    by (simp add: getBestPrices_def example_defs sort_by_def bid_cmp_def num_minus_def pf
        to_double_zero)
  moreover have "new_Big ''0.1'' = Some (Big 1 (- 1))"
    "new_Big ''0.10000000000000000001'' = Some (Big 10000000000000000001 (- 20))"
    by (simp_all add: new_Big_defs)
  moreover have "big_val (Big 1 (- 1)) < big_val (Big 10000000000000000001 (- 20))"
    by (simp add: big_val_def)
  ultimately show ?thesis by simp
qed

section \<open>Detection of an arbitrage opportunity\<close>

text \<open>
  Claim C2, which the code does not meet. The book with one bid at 0.60, of size 10, and
  one ask at 0.55, of size 8, has its best bid above its best ask and a margin of 1/11,
  above the floor of 0.02: by the claim an opportunity is returned, and a trade of size 8
  is executed. The search gets as far as the margin test, which the book passes, reads
  the two sizes, and calls \<^verbatim>\<open>Big.min\<close>; the call throws and the handler returns null.
  No book yields an opportunity, whatever the API, the configuration and the state are;
  and \<^verbatim>\<open>executeArbitrage\<close>, which calls \<^verbatim>\<open>Big.min\<close> before it enters the key and sends
  the legs, sends no order for any opportunity handed to it.
\<close>

theorem findArbitrageOpportunity_never_detects:
  "fst (findArbitrageOpportunity api cfg st marketId outcome) = None \<and>
   executeArbitrage api cfg st opportunity = st \<and>
   fst (getBestPrices
          (example_api (Inr [])
             (Inr (example_book [example_order ''0.60'' ''10''] [example_order ''0.55'' ''8''])))
          example_bot ''m1'' ''yes'') = Some (''0.60'', ''0.55'') \<and>
   new_Big ''0.60'' = Some (Big 6 (- 1)) \<and> new_Big ''0.55'' = Some (Big 55 (- 2)) \<and>
   big_gt (Big 6 (- 1)) (Big 55 (- 2)) \<and>
   2 / 100 \<le> (big_val (Big 6 (- 1)) - big_val (Big 55 (- 2))) / big_val (Big 55 (- 2)) \<and>
   big_div (big_minus (Big 6 (- 1)) (Big 55 (- 2))) (Big 55 (- 2)) =
     Some (Big 9090909090909090909 (- 20)) \<and>
   num_ge (toNumber (Big 9090909090909090909 (- 20))) (minProfitMargin example_config) \<and>
   new_Big ''10'' = Some (Big 1 1) \<and> new_Big ''8'' = Some (Big 8 0) \<and>
   Big_min (Big 1 1) (Big 8 0) = Inl NotAFunction \<and>
   findArbitrageOpportunity
     (example_api (Inr [])
        (Inr (example_book [example_order ''0.60'' ''10''] [example_order ''0.55'' ''8''])))
     example_config example_bot ''m1'' ''yes'' =
     (None, example_bot\<lparr>calls := [GetOrderBook ''m1'' ''yes'']\<rparr>) \<and>
   calls (executeArbitrage
            (example_api (Inr [])
               (Inr (example_book [example_order ''0.60'' ''10''] [example_order ''0.55'' ''8''])))
            example_config example_bot example_opportunity) = []"
proof -
  have nb: "new_Big ''0.60'' = Some (Big 6 (- 1))" "new_Big ''0.55'' = Some (Big 55 (- 2))"
    "new_Big ''10'' = Some (Big 1 1)" "new_Big ''8'' = Some (Big 8 0)"
    by (simp_all add: new_Big_defs)
  have q: "big_div (big_minus (Big 6 (- 1)) (Big 55 (- 2))) (Big 55 (- 2)) =
      Some (Big 9090909090909090909 (- 20))"
    by (simp add: big_div_def big_minus_def big_plus_def norm_big_def strip10.simps
        round_half_up_def)
  have n: "toNumber (Big 9090909090909090909 (- 20)) =
      Finite (3275345183542179 / 36028797018963968)"
    by (simp add: toNumber_def big_val_def to_double_values)
  have c: "minProfitMargin example_config = Finite (5764607523034235 / 288230376151711744)"
    by (simp add: example_config_def to_double_values)
  have ge: "num_ge (toNumber (Big 9090909090909090909 (- 20))) (minProfitMargin example_config)"
    unfolding n c by (simp add: num_ge_def)
  have g: "big_gt (Big 6 (- 1)) (Big 55 (- 2))"
    "2 / 100 \<le> (big_val (Big 6 (- 1)) - big_val (Big 55 (- 2))) / big_val (Big 55 (- 2))"
    by (simp_all add: big_gt_def big_val_def)
  have b: "fst (getBestPrices
          (example_api (Inr [])
             (Inr (example_book [example_order ''0.60'' ''10''] [example_order ''0.55'' ''8''])))
          example_bot ''m1'' ''yes'') = Some (''0.60'', ''0.55'')"
    by (simp add: getBestPrices_def example_api_def example_book_def example_order_def
        sort_by_def)
  have e: "calls example_bot = []"
    by (simp add: example_bot_def)
  show ?thesis
    using nb q ge g b e
    by (simp add: findArbitrageOpportunity_null executeArbitrage_unchanged Big_min_def)
qed

section \<open>Where the arithmetic is exact and where it is not\<close>

lemma placeOrder_rejections:
  assumes "new_Big (c_size params) = Some sz" "new_Big (minOrderSize cfg) = Some lo"
    "new_Big (maxOrderSize cfg) = Some hi" "new_Big (c_price params) = Some pr"
  shows "big_val sz < big_val lo \<Longrightarrow> placeOrder api cfg st params = (Inl BelowMinimum, st)"
    and "big_val lo \<le> big_val sz \<Longrightarrow> big_val hi < big_val sz \<Longrightarrow>
           placeOrder api cfg st params = (Inl AboveMaximum, st)"
    and "big_val lo \<le> big_val sz \<Longrightarrow> big_val sz \<le> big_val hi \<Longrightarrow>
           big_val pr < 0 \<or> 1 < big_val pr \<Longrightarrow>
           placeOrder api cfg st params = (Inl InvalidPrice, st)"
    and "big_val lo \<le> big_val sz \<Longrightarrow> big_val sz \<le> big_val hi \<Longrightarrow>
           0 \<le> big_val pr \<Longrightarrow> big_val pr \<le> 1 \<Longrightarrow>
           \<exists>rest. calls (snd (placeOrder api cfg st params)) =
             calls st @ CreateOrder params # rest"
proof -
  show "big_val sz < big_val lo \<Longrightarrow> placeOrder api cfg st params = (Inl BelowMinimum, st)"
    and "big_val lo \<le> big_val sz \<Longrightarrow> big_val hi < big_val sz \<Longrightarrow>
           placeOrder api cfg st params = (Inl AboveMaximum, st)"
    and "big_val lo \<le> big_val sz \<Longrightarrow> big_val sz \<le> big_val hi \<Longrightarrow>
           big_val pr < 0 \<or> 1 < big_val pr \<Longrightarrow>
           placeOrder api cfg st params = (Inl InvalidPrice, st)"
    using assms by (auto simp: placeOrder_def big_lt_def big_gt_def big_val_consts)
  show "\<exists>rest. calls (snd (placeOrder api cfg st params)) =
             calls st @ CreateOrder params # rest"
    if "big_val lo \<le> big_val sz" "big_val sz \<le> big_val hi" "0 \<le> big_val pr"
      "big_val pr \<le> 1"
  proof -
    have "within_bounds cfg params"
      using assms that by (simp add: within_bounds_def)
    then show ?thesis by (rule placeOrder_accepted)
  qed
qed

lemma to_double_dyadic:
  "to_double (1 / 4) = Finite (1 / 4)" "to_double (1 / 2) = Finite (1 / 2)"
  using to_double_pos_eval[of "- 2" "1 / 4" "- 54" 4503599627370496]
    to_double_pos_eval[of "- 1" "1 / 2" "- 53" 4503599627370496]
  by (simp_all add: power_int_minus)

lemma to_double_values':
  "to_double (3 / 10) = Finite (5404319552844595 / 18014398509481984)"
  "to_double (29999999999999999999 / 100000000000000000000) =
     Finite (5404319552844595 / 18014398509481984)"
  using to_double_pos_eval[of "- 2" "3 / 10" "- 54" 5404319552844595]
    to_double_pos_eval[of "- 2" "29999999999999999999 / 100000000000000000000" "- 54"
      5404319552844595]
  by (simp_all add: power_int_minus)

lemma pair_split:
  "[x, y] = ys @ b # zs \<Longrightarrow> ys = [] \<and> b = x \<and> zs = [y] \<or> ys = [x] \<and> b = y \<and> zs = []"
  by (cases ys; cases "tl ys") auto

text \<open>
  Claim C8, as the code has it. The order validation operates on the exact decimals that
  big.js reads from the decimal strings: an order is rejected as soon as its size or its
  price lies beyond a bound by any amount, and it is sent when they lie within the
  bounds. The best bid and the best ask are selected by comparing the prices as doubles.
\<close>

theorem decimal_and_double_arithmetic:
  "(\<forall>sz lo hi pr.
      new_Big (c_size params) = Some sz \<and> new_Big (minOrderSize cfg) = Some lo \<and>
      new_Big (maxOrderSize cfg) = Some hi \<and> new_Big (c_price params) = Some pr \<longrightarrow>
      (big_val sz < big_val lo \<longrightarrow> placeOrder api cfg st params = (Inl BelowMinimum, st)) \<and>
      (big_val lo \<le> big_val sz \<and> big_val hi < big_val sz \<longrightarrow>
         placeOrder api cfg st params = (Inl AboveMaximum, st)) \<and>
      (big_val lo \<le> big_val sz \<and> big_val sz \<le> big_val hi \<and>
       (big_val pr < 0 \<or> 1 < big_val pr) \<longrightarrow>
         placeOrder api cfg st params = (Inl InvalidPrice, st)) \<and>
      (big_val lo \<le> big_val sz \<and> big_val sz \<le> big_val hi \<and>
       0 \<le> big_val pr \<and> big_val pr \<le> 1 \<longrightarrow>
         (\<exists>rest. calls (snd (placeOrder api cfg st params)) =
            calls st @ CreateOrder params # rest))) \<and>
   (\<forall>book.
      getOrderBook api (calls st) m oc = Inr book \<and> bids book \<noteq> [] \<and> asks book \<noteq> [] \<and>
      (\<forall>x\<in>set (bids book) \<union> set (asks book). parseFloat (o_price x) \<noteq> NaN) \<longrightarrow>
      (\<exists>ys b zs ys' a zs'.
         bids book = ys @ b # zs \<and>
         (\<forall>y\<in>set ys. num_lt (parseFloat (o_price y)) (parseFloat (o_price b))) \<and>
         (\<forall>z\<in>set zs. \<not> num_lt (parseFloat (o_price b)) (parseFloat (o_price z))) \<and>
         asks book = ys' @ a # zs' \<and>
         (\<forall>y\<in>set ys'. num_lt (parseFloat (o_price a)) (parseFloat (o_price y))) \<and>
         (\<forall>z\<in>set zs'. \<not> num_lt (parseFloat (o_price z)) (parseFloat (o_price a))) \<and>
         fst (getBestPrices api st m oc) = Some (o_price b, o_price a)))"
proof (intro conjI allI impI)
  fix sz lo hi pr
  assume a: "new_Big (c_size params) = Some sz \<and> new_Big (minOrderSize cfg) = Some lo \<and>
      new_Big (maxOrderSize cfg) = Some hi \<and> new_Big (c_price params) = Some pr"
  then have p: "new_Big (c_size params) = Some sz" "new_Big (minOrderSize cfg) = Some lo"
    "new_Big (maxOrderSize cfg) = Some hi" "new_Big (c_price params) = Some pr" by simp_all
  show "placeOrder api cfg st params = (Inl BelowMinimum, st)" if "big_val sz < big_val lo"
    using placeOrder_rejections(1)[OF p that] .
  show "placeOrder api cfg st params = (Inl AboveMaximum, st)"
    if "big_val lo \<le> big_val sz \<and> big_val hi < big_val sz"
    using placeOrder_rejections(2)[OF p] that by blast
  show "placeOrder api cfg st params = (Inl InvalidPrice, st)"
    if "big_val lo \<le> big_val sz \<and> big_val sz \<le> big_val hi \<and>
       (big_val pr < 0 \<or> 1 < big_val pr)"
    using placeOrder_rejections(3)[OF p] that by blast
  show "\<exists>rest. calls (snd (placeOrder api cfg st params)) =
            calls st @ CreateOrder params # rest"
    if "big_val lo \<le> big_val sz \<and> big_val sz \<le> big_val hi \<and>
       0 \<le> big_val pr \<and> big_val pr \<le> 1"
    using placeOrder_rejections(4)[OF p] that by blast
next
  fix book
  assume a: "getOrderBook api (calls st) m oc = Inr book \<and> bids book \<noteq> [] \<and>
      asks book \<noteq> [] \<and>
      (\<forall>x\<in>set (bids book) \<union> set (asks book). parseFloat (o_price x) \<noteq> NaN)"
  then have fetch: "getOrderBook api (calls st) m oc = Inr book"
    and ne: "bids book \<noteq> []" "asks book \<noteq> []"
    and nn: "\<forall>x\<in>set (bids book) \<union> set (asks book). parseFloat (o_price x) \<noteq> NaN"
    by simp_all
  from best_orders[OF ne nn] obtain ys b zs bt ys' a zs' atl where
    h: "bids book = ys @ b # zs"
      "\<forall>y\<in>set ys. num_lt (parseFloat (o_price y)) (parseFloat (o_price b))"
      "\<forall>z\<in>set zs. \<not> num_lt (parseFloat (o_price b)) (parseFloat (o_price z))"
      "asks book = ys' @ a # zs'"
      "\<forall>y\<in>set ys'. num_lt (parseFloat (o_price a)) (parseFloat (o_price y))"
      "\<forall>z\<in>set zs'. \<not> num_lt (parseFloat (o_price z)) (parseFloat (o_price a))"
      "sort_by bid_cmp (bids book) = b # bt" "sort_by ask_cmp (asks book) = a # atl"
      "o_price b \<noteq> []" "o_price a \<noteq> []"
    by blast
  have f: "fst (getBestPrices api st m oc) = Some (o_price b, o_price a)"
    using fetch h(7-10) by (simp add: getBestPrices_def Let_def)
  show "\<exists>ys b zs ys' a zs'.
         bids book = ys @ b # zs \<and>
         (\<forall>y\<in>set ys. num_lt (parseFloat (o_price y)) (parseFloat (o_price b))) \<and>
         (\<forall>z\<in>set zs. \<not> num_lt (parseFloat (o_price b)) (parseFloat (o_price z))) \<and>
         asks book = ys' @ a # zs' \<and>
         (\<forall>y\<in>set ys'. num_lt (parseFloat (o_price a)) (parseFloat (o_price y))) \<and>
         (\<forall>z\<in>set zs'. \<not> num_lt (parseFloat (o_price z)) (parseFloat (o_price a))) \<and>
         fst (getBestPrices api st m oc) = Some (o_price b, o_price a)"
    by (rule exI[of _ ys], rule exI[of _ b], rule exI[of _ zs], rule exI[of _ ys'],
        rule exI[of _ a], rule exI[of _ zs'])
      (use h(1-6) f in blast)
qed

theorem decimal_and_double_arithmetic_witness:
  "placeOrder (example_api (Inr [])
                 (Inr (example_book [example_order ''0.25'' ''10'', example_order ''0.5'' ''10'']
                         [example_order ''0.75'' ''8''])))
     example_config example_bot (example_params\<lparr>c_price := ''1.01''\<rparr>) =
     (Inl InvalidPrice, example_bot) \<and>
   fst (getBestPrices
          (example_api (Inr [])
             (Inr (example_book [example_order ''0.25'' ''10'', example_order ''0.5'' ''10'']
                     [example_order ''0.75'' ''8''])))
          example_bot ''m1'' ''yes'') = Some (''0.5'', ''0.75'')"
proof -
  define book where
    "book = example_book [example_order ''0.25'' ''10'', example_order ''0.5'' ''10'']
       [example_order ''0.75'' ''8'']"
  define api where "api = example_api (Inr []) (Inr book)"
  define params where "params = example_params\<lparr>c_price := ''1.01''\<rparr>"
  note t = decimal_and_double_arithmetic[of params example_config api example_bot
      "''m1''" "''yes''"]
  have pv: "new_Big (c_size params) = Some (Big 8 0)"
    "new_Big (minOrderSize example_config) = Some (Big 1 (- 2))"
    "new_Big (maxOrderSize example_config) = Some (Big 1 3)"
    "new_Big (c_price params) = Some (Big 101 (- 2))"
    by (simp_all add: params_def example_params_def example_config_def new_Big_defs)
  have pb: "big_val (Big 1 (- 2)) \<le> big_val (Big 8 0) \<and>
      big_val (Big 8 0) \<le> big_val (Big 1 3) \<and>
      (big_val (Big 101 (- 2)) < 0 \<or> 1 < big_val (Big 101 (- 2)))"
    by (simp add: big_val_def)
  note t1 = t[THEN conjunct1] and t2 = t[THEN conjunct2]
  from t1 pv pb have one: "placeOrder api example_config example_bot params =
      (Inl InvalidPrice, example_bot)" by blast
  have pf: "parseFloat ''0.25'' = Finite (1 / 4)" "parseFloat ''0.5'' = Finite (1 / 2)"
    by (simp_all add: parseFloat_def scan_defs to_double_dyadic)
  have p3: "parseFloat ''0.75'' \<noteq> NaN"
    by (simp add: parseFloat_def scan_defs)
  have fetch: "getOrderBook api (calls example_bot) ''m1'' ''yes'' = Inr book"
    by (simp add: api_def example_api_def)
  have bk: "bids book = [example_order ''0.25'' ''10'', example_order ''0.5'' ''10'']"
    "asks book = [example_order ''0.75'' ''8'']"
    by (simp_all add: book_def example_book_def)
  have op: "o_price (example_order ''0.25'' ''10'') = ''0.25''"
    "o_price (example_order ''0.5'' ''10'') = ''0.5''"
    "o_price (example_order ''0.75'' ''8'') = ''0.75''"
    by (simp_all add: example_order_def)
  have nn: "\<forall>x\<in>set (bids book) \<union> set (asks book). parseFloat (o_price x) \<noteq> NaN"
    using p3 by (simp add: bk op pf)
  have prem: "getOrderBook api (calls example_bot) ''m1'' ''yes'' = Inr book \<and>
      bids book \<noteq> [] \<and> asks book \<noteq> [] \<and>
      (\<forall>x\<in>set (bids book) \<union> set (asks book). parseFloat (o_price x) \<noteq> NaN)"
    using fetch nn by (simp add: bk)
  from t2[THEN spec, THEN mp, OF prem] obtain ys b zs ys' a zs' where
    h: "bids book = ys @ b # zs" "asks book = ys' @ a # zs'"
      "\<forall>z\<in>set zs. \<not> num_lt (parseFloat (o_price b)) (parseFloat (o_price z))"
      "fst (getBestPrices api example_bot ''m1'' ''yes'') = Some (o_price b, o_price a)"
    by (elim exE conjE) (rule that)
  have a: "a = example_order ''0.75'' ''8''"
    using singleton_split[OF h(2)[unfolded bk]] .
  from pair_split[OF h(1)[unfolded bk]]
  have b: "b = example_order ''0.5'' ''10''"
  proof
    assume c: "ys = [] \<and> b = example_order ''0.25'' ''10'' \<and> zs = [example_order ''0.5'' ''10'']"
    with h(3) have "\<not> num_lt (parseFloat ''0.25'') (parseFloat ''0.5'')"
      by (simp add: op)
    then show ?thesis by (simp add: pf)
  next
    assume "ys = [example_order ''0.25'' ''10''] \<and> b = example_order ''0.5'' ''10'' \<and> zs = []"
    then show ?thesis by simp
  qed
  from h(4) have two: "fst (getBestPrices api example_bot ''m1'' ''yes'') =
      Some (''0.5'', ''0.75'')"
    by (simp add: a b op)
  from one two show ?thesis
    unfolding api_def book_def params_def by (rule conjI)
qed

text \<open>
  The claim as the specification states it, with no double anywhere, fails: of the asks
  at 0.3 and at 0.29999999999999999999, which \<^verbatim>\<open>parseFloat\<close> reads as the same double,
  the first in the book is returned as the best ask, although the second is lower.
\<close>

theorem best_ask_chosen_by_double:
  "fst (getBestPrices
          (example_api (Inr [])
             (Inr (example_book [example_order ''0.6'' ''10'']
                     [example_order ''0.3'' ''8'',
                      example_order ''0.29999999999999999999'' ''8''])))
          example_bot ''m1'' ''yes'') = Some (''0.6'', ''0.3'') \<and>
   parseFloat ''0.3'' = parseFloat ''0.29999999999999999999'' \<and>
   new_Big ''0.3'' = Some (Big 3 (- 1)) \<and>
   new_Big ''0.29999999999999999999'' = Some (Big 29999999999999999999 (- 20)) \<and>
   big_val (Big 29999999999999999999 (- 20)) < big_val (Big 3 (- 1))"
proof -
  have pf: "parseFloat ''0.3'' = Finite (5404319552844595 / 18014398509481984)"
    "parseFloat ''0.29999999999999999999'' = Finite (5404319552844595 / 18014398509481984)"
    by (simp_all add: parseFloat_def scan_defs to_double_values')
  have nb: "new_Big ''0.3'' = Some (Big 3 (- 1))"
    "new_Big ''0.29999999999999999999'' = Some (Big 29999999999999999999 (- 20))"
    by (simp_all add: new_Big_defs)
  have "fst (getBestPrices
          (example_api (Inr [])
             (Inr (example_book [example_order ''0.6'' ''10'']
                     [example_order ''0.3'' ''8'',
                      example_order ''0.29999999999999999999'' ''8''])))
          example_bot ''m1'' ''yes'') = Some (''0.6'', ''0.3'')"
    by (simp add: getBestPrices_def example_defs sort_by_def ask_cmp_def num_minus_def pf
        to_double_zero)
  moreover have "big_val (Big 29999999999999999999 (- 20)) < big_val (Big 3 (- 1))"
    by (simp add: big_val_def)
  ultimately show ?thesis using nb pf by simp
qed

end
